theory Spec2Isabelle
  imports Complex_Main "HOL-Library.Word" "HOL-Library.Log_Nat" "HOL-Library.Monad_Syntax"
begin

section \<open>Bytes and Python values\<close>

text \<open>
  A datagram is a Python \<open>bytes\<close> object: a list of 8-bit words. A slice
  \<open>data[a:b]\<close> with \<open>0 \<le> a \<le> b\<close> never raises: Python clamps it to the
  bytes that exist.
\<close>

type_synonym byte = "8 word"

definition py_slice :: "'a list \<Rightarrow> nat \<Rightarrow> nat \<Rightarrow> 'a list" where
  "py_slice data a b = take (b - a) (drop a data)"

text \<open>The little-endian number a byte string denotes, and the \<open>n\<close> low bytes of a number.\<close>

fun le_nat :: "byte list \<Rightarrow> nat" where
  "le_nat [] = 0"
| "le_nat (b # bs) = unat b + 256 * le_nat bs"

fun le_bytes :: "nat \<Rightarrow> nat \<Rightarrow> byte list" where
  "le_bytes 0 v = []"
| "le_bytes (Suc n) v = of_nat (v mod 256) # le_bytes n (v div 256)"

subsection \<open>Python floats\<close>

text \<open>
  A Python float is an IEEE 754 binary64 value: a sign with a finite magnitude, an
  infinity, or a NaN. \<open>Finite s m\<close> is the value \<open>m\<close> (which is never negative),
  negated when \<open>s\<close> holds, so that \<open>-0.0\<close> is \<open>Finite True 0\<close>. \<open>NaN s p\<close> is the
  NaN of sign bit \<open>s\<close> and of fraction field \<open>p\<close>, a number of 52 bits other than 0
  whose top bit tells a quiet NaN from a signalling one: \<open>float('nan')\<close> is
  \<open>NaN False (2^51)\<close>.
\<close>

datatype pyfloat = Finite bool real | Infinity bool | NaN bool nat

fun float_value :: "pyfloat \<Rightarrow> real" where
  "float_value (Finite s m) = (if s then - m else m)"
| "float_value _ = 0"

text \<open>\<open>ilog2 x\<close> is the exponent of the binade of a positive \<open>x\<close>: the \<open>k\<close> with \<open>2^k \<le> x < 2^(k+1)\<close>.\<close>

definition ilog2 :: "real \<Rightarrow> int" where
  "ilog2 x = (if 1 \<le> x then bitlen \<lfloor>x\<rfloor> - 1 else - bitlen (\<lceil>1 / x\<rceil> - 1))"

text \<open>Rounding to the nearest integer, a tie going to the even one.\<close>

definition round_even :: "real \<Rightarrow> int" where
  "round_even x =
     (let n = \<lfloor>x\<rfloor>; d = x - of_int n
      in if d < 1 / 2 then n else if 1 / 2 < d then n + 1 else if even n then n else n + 1)"

text \<open>
  \<open>round_to p qmin x\<close> rounds a magnitude to \<open>p\<close> significant bits, to nearest and ties
  to even, the last bit never worth less than \<open>2^qmin\<close> (gradual underflow). The
  exponent is not bounded from above here: the callers test for overflow.
\<close>

definition round_to :: "nat \<Rightarrow> int \<Rightarrow> real \<Rightarrow> real" where
  "round_to p qmin x =
     (if x = 0 then 0
      else let q = max (ilog2 x - int p + 1) qmin
           in of_int (round_even (x / 2 powi q)) * 2 powi q)"

text \<open>A binary64 result of magnitude \<open>x\<close> before rounding: it overflows to an infinity.\<close>

definition mk_double :: "bool \<Rightarrow> real \<Rightarrow> pyfloat" where
  "mk_double s x = (let r = round_to 53 (- 1074) x in if 2 ^ 1024 \<le> r then Infinity s else Finite s r)"

text \<open>A float literal of the source, such as \<open>0.85\<close>: the nearest binary64 value.\<close>

definition float_lit :: "real \<Rightarrow> pyfloat" where
  "float_lit x = mk_double False x"

text \<open>
  Negation and \<open>abs\<close> act on the sign bit alone, also of a NaN. An arithmetic
  operation on a NaN returns its first NaN operand with the quiet bit set, and an
  invalid operation (\<open>0 * inf\<close>, \<open>inf - inf\<close>, \<open>inf / inf\<close>) returns the default NaN,
  which on x86-64, where CPython computes with the SSE2 instructions, has its sign bit
  set.
\<close>

definition quiet :: "nat \<Rightarrow> nat" where
  "quiet p = 2 ^ 51 + p mod 2 ^ 51"

definition default_nan :: pyfloat where
  "default_nan = NaN True (2 ^ 51)"

fun fneg :: "pyfloat \<Rightarrow> pyfloat" where
  "fneg (Finite s m) = Finite (\<not> s) m"
| "fneg (Infinity s) = Infinity (\<not> s)"
| "fneg (NaN s p) = NaN (\<not> s) p"

fun fabs :: "pyfloat \<Rightarrow> pyfloat" where
  "fabs (Finite s m) = Finite False m"
| "fabs (Infinity s) = Infinity False"
| "fabs (NaN s p) = NaN False p"

fun fmul :: "pyfloat \<Rightarrow> pyfloat \<Rightarrow> pyfloat" where
  "fmul (Finite s m) (Finite t n) = mk_double (s \<noteq> t) (m * n)"
| "fmul (Finite s m) (Infinity t) = (if m = 0 then default_nan else Infinity (s \<noteq> t))"
| "fmul (Infinity s) (Finite t n) = (if n = 0 then default_nan else Infinity (s \<noteq> t))"
| "fmul (Infinity s) (Infinity t) = Infinity (s \<noteq> t)"
| "fmul (NaN s p) y = NaN s (quiet p)"
| "fmul x (NaN t q) = NaN t (quiet q)"

fun fadd :: "pyfloat \<Rightarrow> pyfloat \<Rightarrow> pyfloat" where
  "fadd (Finite s m) (Finite t n) =
     (let v = float_value (Finite s m) + float_value (Finite t n)
      in if v = 0 then Finite (s \<and> t) 0 else mk_double (v < 0) \<bar>v\<bar>)"
| "fadd (Finite s m) (Infinity t) = Infinity t"
| "fadd (Infinity s) (Finite t n) = Infinity s"
| "fadd (Infinity s) (Infinity t) = (if s = t then Infinity s else default_nan)"
| "fadd (NaN s p) y = NaN s (quiet p)"
| "fadd x (NaN t q) = NaN t (quiet q)"

text \<open>A difference is the sum with the negated subtrahend, but a NaN subtrahend keeps its sign.\<close>

fun fsub :: "pyfloat \<Rightarrow> pyfloat \<Rightarrow> pyfloat" where
  "fsub (NaN s p) y = NaN s (quiet p)"
| "fsub x (NaN t q) = NaN t (quiet q)"
| "fsub x y = fadd x (fneg y)"

text \<open>True division of floats raises ZeroDivisionError on a zero divisor (\<open>None\<close>).\<close>

fun fdiv :: "pyfloat \<Rightarrow> pyfloat \<Rightarrow> pyfloat option" where
  "fdiv (Finite s m) (Finite t n) = (if n = 0 then None else Some (mk_double (s \<noteq> t) (m / n)))"
| "fdiv (Finite s m) (Infinity t) = Some (Finite (s \<noteq> t) 0)"
| "fdiv (Infinity s) (Finite t n) = (if n = 0 then None else Some (Infinity (s \<noteq> t)))"
| "fdiv (Infinity s) (Infinity t) = Some default_nan"
| "fdiv (NaN s p) (Finite t n) = (if n = 0 then None else Some (NaN s (quiet p)))"
| "fdiv (NaN s p) y = Some (NaN s (quiet p))"
| "fdiv x (NaN t q) = Some (NaN t (quiet q))"

text \<open>Comparison: a NaN is unordered, and both zeros are equal.\<close>

fun float_lt :: "pyfloat \<Rightarrow> pyfloat \<Rightarrow> bool" where
  "float_lt (Finite s m) (Finite t n) = (float_value (Finite s m) < float_value (Finite t n))"
| "float_lt (Finite s m) (Infinity t) = (\<not> t)"
| "float_lt (Infinity s) (Finite t n) = s"
| "float_lt (Infinity s) (Infinity t) = (s \<and> \<not> t)"
| "float_lt _ _ = False"

text \<open>
  An integer as an exact value, for the comparison of an int with a float (which Python
  decides exactly), and an integer converted to a float as \<open>int * float\<close> does, which
  raises OverflowError beyond the binary64 range.
\<close>

definition exact_of_int :: "int \<Rightarrow> pyfloat" where
  "exact_of_int i = Finite (i < 0) \<bar>of_int i\<bar>"

definition float_of_int :: "int \<Rightarrow> pyfloat option" where
  "float_of_int i =
     (case mk_double (i < 0) \<bar>of_int i\<bar> of Infinity s \<Rightarrow> None | f \<Rightarrow> Some f)"

text \<open>\<open>int(x)\<close> truncates towards zero; it raises on an infinity (OverflowError) and on a NaN (ValueError).\<close>

fun int_of_float :: "pyfloat \<Rightarrow> int option" where
  "int_of_float (Finite s m) = Some (if s then - \<lfloor>m\<rfloor> else \<lfloor>m\<rfloor>)"
| "int_of_float _ = None"

subsection \<open>The struct module\<close>

text \<open>
  The value of a binary32 bit pattern; the conversion to a Python float is exact. The
  23 bits of the fraction field of a NaN become the top bits of the 52, and the
  conversion sets the quiet bit.
\<close>

definition f32_value :: "nat \<Rightarrow> pyfloat" where
  "f32_value bits =
     (let s = ((bits div 2 ^ 31) mod 2 = 1); e = (bits div 2 ^ 23) mod 256; f = bits mod 2 ^ 23
      in if e = 255 then (if f = 0 then Infinity s else NaN s ((2 ^ 22 + f mod 2 ^ 22) * 2 ^ 29))
         else if e = 0 then Finite s (real f * 2 powi (- 149))
         else Finite s (real (2 ^ 23 + f) * 2 powi (int e - 150)))"

text \<open>
  The exponent and fraction fields of a magnitude that binary32 represents: subnormal
  below \<open>2^-126\<close>, normal from there on.
\<close>

definition f32_fields :: "real \<Rightarrow> nat" where
  "f32_fields r =
     (if r < 2 powi (- 126) then nat \<lfloor>r * 2 ^ 149\<rfloor>
      else let e = ilog2 r in nat (e + 126) * 2 ^ 23 + nat \<lfloor>r * 2 powi (23 - e)\<rfloor>)"

definition sign_bit :: "bool \<Rightarrow> nat" where
  "sign_bit s = (if s then 2 ^ 31 else 0)"

text \<open>
  \<open>struct.unpack\<close> raises struct.error unless the buffer has exactly the size of the
  format; \<open>struct.pack\<close> raises struct.error on an integer out of range and
  OverflowError on a float whose binary32 rounding overflows. It packs a NaN with its
  sign and the top 22 bits of its payload, as a quiet NaN.
\<close>

definition unpack_I :: "byte list \<Rightarrow> nat option" where
  "unpack_I bs = (if length bs = 4 then Some (le_nat bs) else None)"

definition unpack_i :: "byte list \<Rightarrow> int option" where
  "unpack_i bs =
     (if length bs = 4
      then Some (if le_nat bs < 2 ^ 31 then int (le_nat bs) else int (le_nat bs) - 2 ^ 32)
      else None)"

definition unpack_f :: "byte list \<Rightarrow> pyfloat option" where
  "unpack_f bs = (if length bs = 4 then Some (f32_value (le_nat bs)) else None)"

definition pack_I :: "int \<Rightarrow> byte list option" where
  "pack_I v = (if 0 \<le> v \<and> v < 2 ^ 32 then Some (le_bytes 4 (nat v)) else None)"

definition pack_i :: "int \<Rightarrow> byte list option" where
  "pack_i v = (if - (2 ^ 31) \<le> v \<and> v < 2 ^ 31 then Some (le_bytes 4 (nat (v mod 2 ^ 32))) else None)"

fun pack_f :: "pyfloat \<Rightarrow> byte list option" where
  "pack_f (Finite s m) =
     (let r = round_to 24 (- 149) m
      in if 2 ^ 128 \<le> r then None else Some (le_bytes 4 (sign_bit s + f32_fields r)))"
| "pack_f (Infinity s) = Some (le_bytes 4 (sign_bit s + 255 * 2 ^ 23))"
| "pack_f (NaN s p) = Some (le_bytes 4 (sign_bit s + 255 * 2 ^ 23 + 2 ^ 22 + p div 2 ^ 29 mod 2 ^ 22))"


subsection \<open>Dynamically typed values and dictionaries\<close>

text \<open>A Python \<open>str\<close> is a list of code points; \<open>str\<close> embeds an ASCII literal of the source.\<close>

type_synonym pystr = "nat list"

definition str :: "string \<Rightarrow> pystr" where
  "str s = map of_char s"

datatype pyval =
    PNone
  | PBool bool
  | PInt int
  | PFloat pyfloat
  | PStr pystr
  | PList "pyval list"

text \<open>
  A \<open>dict\<close> keeps its keys in insertion order. \<open>dict_set\<close> is \<open>d[k] = v\<close>,
  \<open>dict_update\<close> is \<open>d.update(e)\<close>, \<open>dict_get\<close> is \<open>d.get(k)\<close> and
  \<open>dict_get_default\<close> is \<open>d.get(k, default)\<close>.
\<close>

type_synonym dict = "(string \<times> pyval) list"

fun dict_set :: "dict \<Rightarrow> string \<Rightarrow> pyval \<Rightarrow> dict" where
  "dict_set [] k v = [(k, v)]"
| "dict_set ((k', v') # d) k v = (if k' = k then (k, v) # d else (k', v') # dict_set d k v)"

fun dict_update :: "dict \<Rightarrow> dict \<Rightarrow> dict" where
  "dict_update d [] = d"
| "dict_update d ((k, v) # e) = dict_update (dict_set d k v) e"

definition dict_get :: "dict \<Rightarrow> string \<Rightarrow> pyval option" where
  "dict_get d k = map_of d k"

definition dict_get_default :: "dict \<Rightarrow> string \<Rightarrow> pyval \<Rightarrow> pyval" where
  "dict_get_default d k dflt = (case map_of d k of None \<Rightarrow> dflt | Some v \<Rightarrow> v)"

text \<open>
  The operators of the derived-value computation, on values whose type is only known
  when the program runs. \<open>None\<close> is a raised exception (TypeError, IndexError,
  OverflowError). A \<open>bool\<close> counts as the integer 0 or 1.
\<close>

datatype number = NInt int | NFloat pyfloat

fun as_number :: "pyval \<Rightarrow> number option" where
  "as_number (PBool b) = Some (NInt (if b then 1 else 0))"
| "as_number (PInt i) = Some (NInt i)"
| "as_number (PFloat f) = Some (NFloat f)"
| "as_number _ = None"

text \<open>\<open>abs(x)\<close>.\<close>

definition py_abs :: "pyval \<Rightarrow> pyval option" where
  "py_abs x =
     (case as_number x of
        None \<Rightarrow> None
      | Some (NInt i) \<Rightarrow> Some (PInt \<bar>i\<bar>)
      | Some (NFloat f) \<Rightarrow> Some (PFloat (fabs f)))"

text \<open>\<open>x * c\<close>, \<open>x - c\<close>, \<open>x > c\<close> and \<open>x < c\<close> for a float \<open>c\<close>.\<close>

definition py_mul_float :: "pyval \<Rightarrow> pyfloat \<Rightarrow> pyfloat option" where
  "py_mul_float x c =
     (case as_number x of
        None \<Rightarrow> None
      | Some (NInt i) \<Rightarrow> map_option (\<lambda>f. fmul f c) (float_of_int i)
      | Some (NFloat f) \<Rightarrow> Some (fmul f c))"

definition py_sub_float :: "pyval \<Rightarrow> pyfloat \<Rightarrow> pyfloat option" where
  "py_sub_float x c =
     (case as_number x of
        None \<Rightarrow> None
      | Some (NInt i) \<Rightarrow> map_option (\<lambda>f. fsub f c) (float_of_int i)
      | Some (NFloat f) \<Rightarrow> Some (fsub f c))"

definition py_gt_float :: "pyval \<Rightarrow> pyfloat \<Rightarrow> bool option" where
  "py_gt_float x c =
     (case as_number x of
        None \<Rightarrow> None
      | Some (NInt i) \<Rightarrow> Some (float_lt c (exact_of_int i))
      | Some (NFloat f) \<Rightarrow> Some (float_lt c f))"

definition py_lt_float :: "pyval \<Rightarrow> pyfloat \<Rightarrow> bool option" where
  "py_lt_float x c =
     (case as_number x of
        None \<Rightarrow> None
      | Some (NInt i) \<Rightarrow> Some (float_lt (exact_of_int i) c)
      | Some (NFloat f) \<Rightarrow> Some (float_lt f c))"

text \<open>\<open>x[i]\<close> for \<open>i \<ge> 0\<close>, and the items a \<open>for\<close> loop over \<open>x\<close> visits.\<close>

fun py_index :: "pyval \<Rightarrow> nat \<Rightarrow> pyval option" where
  "py_index (PList xs) i = (if i < length xs then Some (xs ! i) else None)"
| "py_index (PStr s) i = (if i < length s then Some (PStr [s ! i]) else None)"
| "py_index _ i = None"

fun py_iter :: "pyval \<Rightarrow> pyval list option" where
  "py_iter (PList xs) = Some xs"
| "py_iter (PStr s) = Some (map (\<lambda>c. PStr [c]) s)"
| "py_iter _ = None"

text \<open>A loop body that may raise, run over the items in order: the first exception ends it.\<close>

fun for_each :: "('a \<Rightarrow> 'b option) \<Rightarrow> 'a list \<Rightarrow> 'b list option" where
  "for_each f [] = Some []"
| "for_each f (x # xs) =
     (case f x of None \<Rightarrow> None
      | Some y \<Rightarrow> (case for_each f xs of None \<Rightarrow> None | Some ys \<Rightarrow> Some (y # ys)))"

subsection \<open>UTF-8 decoding\<close>

text \<open>
  \<open>bytes.decode('utf-8', errors=...)\<close> as CPython implements it. \<open>utf8_step\<close> looks at
  the sequence at the head of the input: \<open>(Some c, n)\<close> is the code point \<open>c\<close> read from
  \<open>n\<close> bytes, \<open>(None, n)\<close> an error (invalid start byte, invalid continuation byte or
  unexpected end of data) whose range is the next \<open>n\<close> bytes. The handler
  \<open>Ignore\<close> skips the range of an error, \<open>Replace\<close> puts U+FFFD in its place.
\<close>

datatype errors = Ignore | Replace

definition is_cont :: "byte \<Rightarrow> bool" where
  "is_cont b = (0x80 \<le> b \<and> b < 0xC0)"

fun utf8_step :: "byte list \<Rightarrow> nat option \<times> nat" where
  "utf8_step [] = (None, 0)"
| "utf8_step (ch # rest) =
     (if ch < 0x80 then (Some (unat ch), 1)
      else if ch < 0xE0 then
        (if ch < 0xC2 then (None, 1)
         else case rest of
             [] \<Rightarrow> (None, 1)
           | ch2 # _ \<Rightarrow>
               if \<not> is_cont ch2 then (None, 1)
               else (Some ((unat ch - 0xC0) * 64 + (unat ch2 - 0x80)), 2))
      else if ch < 0xF0 then
        (case rest of
           [] \<Rightarrow> (None, 1)
         | ch2 # rest2 \<Rightarrow>
             if \<not> is_cont ch2 then (None, 1)
             else if (if ch2 < 0xA0 then ch = 0xE0 else ch = 0xED) then (None, 1)
             else case rest2 of
                 [] \<Rightarrow> (None, 2)
               | ch3 # _ \<Rightarrow>
                   if \<not> is_cont ch3 then (None, 2)
                   else (Some ((unat ch - 0xE0) * 4096 + (unat ch2 - 0x80) * 64
                                 + (unat ch3 - 0x80)), 3))
      else if ch < 0xF5 then
        (case rest of
           [] \<Rightarrow> (None, 1)
         | ch2 # rest2 \<Rightarrow>
             if \<not> is_cont ch2 then (None, 1)
             else if (if ch2 < 0x90 then ch = 0xF0 else ch = 0xF4) then (None, 1)
             else case rest2 of
                 [] \<Rightarrow> (None, 2)
               | ch3 # rest3 \<Rightarrow>
                   if \<not> is_cont ch3 then (None, 2)
                   else case rest3 of
                       [] \<Rightarrow> (None, 3)
                     | ch4 # _ \<Rightarrow>
                         if \<not> is_cont ch4 then (None, 3)
                         else (Some ((unat ch - 0xF0) * 262144 + (unat ch2 - 0x80) * 4096
                                       + (unat ch3 - 0x80) * 64 + (unat ch4 - 0x80)), 4))
      else (None, 1))"

fun on_error :: "errors \<Rightarrow> pystr" where
  "on_error Ignore = []"
| "on_error Replace = [0xFFFD]"

function utf8_decode :: "errors \<Rightarrow> byte list \<Rightarrow> pystr" where
  "utf8_decode h [] = []"
| "utf8_decode h (b # bs) =
     (case utf8_step (b # bs) of
        (Some c, n) \<Rightarrow> c # utf8_decode h (drop (n - 1) bs)
      | (None, n) \<Rightarrow> on_error h @ utf8_decode h (drop (n - 1) bs))"
  by pat_completeness auto
termination
  by (relation "measure (\<lambda>(h, bs). length bs)") auto

text \<open>\<open>s.rstrip('\x00')\<close>.\<close>

definition rstrip_nul :: "pystr \<Rightarrow> pystr" where
  "rstrip_nul s = rev (dropWhile (\<lambda>c. c = 0) (rev s))"


section \<open>The telemetry parser (telemetry\_parser.py)\<close>

datatype ACUDPType = HANDSHAKER | UPDATE | SPOT | DISMISS

fun udp_type_value :: "ACUDPType \<Rightarrow> nat" where
  "udp_type_value HANDSHAKER = 0"
| "udp_type_value UPDATE = 1"
| "udp_type_value SPOT = 2"
| "udp_type_value DISMISS = 3"

text \<open>\<open>struct.unpack('<II', data[:8])\<close>.\<close>

definition unpack_II :: "byte list \<Rightarrow> (nat \<times> nat) option" where
  "unpack_II bs = (if length bs = 8 then Some (le_nat (take 4 bs), le_nat (drop 4 bs)) else None)"

text \<open>
  \<open>_parse_handshaker\<close>. Its \<open>try\<close> block returns the empty dict on any exception,
  and so does the guard on a payload shorter than 8 bytes.
\<close>

definition parse_handshaker :: "byte list \<Rightarrow> dict" where
  "parse_handshaker data =
     (if length data < 8 then []
      else case (do {
               (car_name_len, driver_name_len) \<leftarrow> unpack_II (py_slice data 0 8);
               let offset = 8;
               let car_name =
                 rstrip_nul (utf8_decode Ignore (py_slice data offset (offset + car_name_len)));
               let offset = offset + car_name_len;
               let driver_name =
                 rstrip_nul (utf8_decode Ignore (py_slice data offset (offset + driver_name_len)));
               Some [(''car_name'', PStr car_name),
                     (''driver_name'', PStr driver_name),
                     (''packet_type'', PStr (str ''handshaker''))]
             }) of
          None \<Rightarrow> []
        | Some result \<Rightarrow> result)"

definition parse_spot :: "byte list \<Rightarrow> dict" where
  "parse_spot data = [(''packet_type'', PStr (str ''spot''))]"

subsection \<open>Derived values\<close>

text \<open>
  \<open>_calculate_derived_values\<close> fills \<open>derived\<close> step by step inside one \<open>try\<close>
  block: an exception ends the computation and the entries stored so far are returned.

  The last entry, \<open>(g_lat**2 + g_lon**2)**0.5\<close>, is computed by the \<open>pow\<close> of the
  platform's C library, which IEEE 754 does not determine. Its evaluation is the
  parameter \<open>gtotal\<close> (\<open>None\<close> when it raises); every result below holds for any
  such function.
\<close>

type_synonym gforce = "pyval \<Rightarrow> pyval \<Rightarrow> pyval option"

definition zeros4 :: pyval where
  "zeros4 = PList [PInt 0, PInt 0, PInt 0, PInt 0]"

definition wheel_lock_at :: "dict \<Rightarrow> nat \<Rightarrow> bool option" where
  "wheel_lock_at data i = do {
     angular_speed \<leftarrow> py_index (dict_get_default data ''wheel_angular_speed'' zeros4) i;
     slip \<leftarrow> py_index (dict_get_default data ''wheel_slip'' zeros4) i;
     abs_slip \<leftarrow> py_abs slip;
     slipping \<leftarrow> py_gt_float abs_slip (float_lit (1 / 10));
     if slipping
     then do { abs_speed \<leftarrow> py_abs angular_speed; py_lt_float abs_speed (float_lit 1) }
     else Some False
   }"

definition tire_pressure_delta :: "dict \<Rightarrow> pyval list option" where
  "tire_pressure_delta data = do {
     let optimal_pressure = float_lit (1896 / 1000);
     pressures \<leftarrow> py_iter (dict_get_default data ''tire_pressure'' zeros4);
     for_each (\<lambda>pressure. map_option PFloat (py_sub_float pressure optimal_pressure)) pressures
   }"

definition gear_recommendation :: "dict \<Rightarrow> pystr option" where
  "gear_recommendation data = do {
     let rpm = dict_get_default data ''rpm'' (PInt 0);
     let max_rpm = dict_get_default data ''max_rpm'' (PInt 8000);
     high \<leftarrow> py_mul_float max_rpm (float_lit (85 / 100));
     above \<leftarrow> py_gt_float rpm high;
     if above then Some (str ''SHIFT UP'')
     else do {
       low \<leftarrow> py_mul_float max_rpm (float_lit (3 / 10));
       below \<leftarrow> py_lt_float rpm low;
       if below then Some (str ''SHIFT DOWN'') else Some (str ''OPTIMAL'')
     }
   }"

definition calculate_derived_values :: "gforce \<Rightarrow> dict \<Rightarrow> dict" where
  "calculate_derived_values gtotal data =
     (let derived = [] in
      case for_each (wheel_lock_at data) [0 ..< 4] of
        None \<Rightarrow> derived
      | Some wheel_lock \<Rightarrow>
          let derived = dict_set derived ''wheel_lock'' (PList (map PBool wheel_lock));
              derived = dict_set derived ''abs_in_action'' (PBool (list_ex (\<lambda>b. b) wheel_lock))
          in case tire_pressure_delta data of
               None \<Rightarrow> derived
             | Some delta \<Rightarrow>
                 let derived = dict_set derived ''tire_pressure_delta'' (PList delta)
                 in case gear_recommendation data of
                      None \<Rightarrow> derived
                    | Some recommendation \<Rightarrow>
                        let derived = dict_set derived ''gear_recommendation'' (PStr recommendation);
                            g_lat = dict_get_default data ''g_force_lateral'' (PInt 0);
                            g_lon = dict_get_default data ''g_force_longitudinal'' (PInt 0)
                        in case gtotal g_lat g_lon of
                             None \<Rightarrow> derived
                           | Some g \<Rightarrow> dict_set derived ''g_force_total'' g)"

subsection \<open>The update packet\<close>

text \<open>The loop \<open>for i in range(n): xs.append(unpack('<f', data[offset:offset+4])[0]); offset += 4\<close>.\<close>

fun read_floats :: "nat \<Rightarrow> byte list \<Rightarrow> nat \<Rightarrow> (pyfloat list \<times> nat) option" where
  "read_floats 0 data offset = Some ([], offset)"
| "read_floats (Suc n) data offset =
     (case unpack_f (py_slice data offset (offset + 4)) of
        None \<Rightarrow> None
      | Some x \<Rightarrow>
          (case read_floats n data (offset + 4) of
             None \<Rightarrow> None
           | Some (xs, offset') \<Rightarrow> Some (x # xs, offset')))"

text \<open>\<open>unpack('<i', ...)[0] / 1000.0\<close>: an int divided by a float.\<close>

definition int_div_float :: "int \<Rightarrow> pyfloat \<Rightarrow> pyfloat option" where
  "int_div_float i c = do { x \<leftarrow> float_of_int i; fdiv x c }"

text \<open>
  The body of the \<open>try\<close> block of \<open>_parse_update\<close> after the length check, reading
  field after field at a running \<open>offset\<close>. \<open>None\<close> is an exception, raised by
  \<open>struct.unpack\<close> or by \<open>int(rpm)\<close> and \<open>int(max_rpm)\<close> on an infinity or a NaN.
\<close>

definition parse_update_fields :: "gforce \<Rightarrow> byte list \<Rightarrow> dict option" where
  "parse_update_fields gtotal data = do {
     let offset = 0;
     speed_kmh \<leftarrow> unpack_f (py_slice data offset (offset + 4));
     let offset = offset + 4;
     let offset = offset + 8;
     rpm \<leftarrow> unpack_f (py_slice data offset (offset + 4));
     let offset = offset + 4;
     max_rpm \<leftarrow> unpack_f (py_slice data offset (offset + 4));
     let offset = offset + 4;
     gear \<leftarrow> unpack_i (py_slice data offset (offset + 4));
     let offset = offset + 4;
     g_force_x \<leftarrow> unpack_f (py_slice data offset (offset + 4));
     let offset = offset + 4;
     g_force_y \<leftarrow> unpack_f (py_slice data offset (offset + 4));
     let offset = offset + 4;
     g_force_z \<leftarrow> unpack_f (py_slice data offset (offset + 4));
     let offset = offset + 4;
     lap_time_ms \<leftarrow> unpack_i (py_slice data offset (offset + 4));
     lap_time \<leftarrow> int_div_float lap_time_ms (float_lit 1000);
     let offset = offset + 4;
     last_lap_ms \<leftarrow> unpack_i (py_slice data offset (offset + 4));
     last_lap \<leftarrow> int_div_float last_lap_ms (float_lit 1000);
     let offset = offset + 4;
     best_lap_ms \<leftarrow> unpack_i (py_slice data offset (offset + 4));
     best_lap \<leftarrow> int_div_float best_lap_ms (float_lit 1000);
     let offset = offset + 4;
     lap_count \<leftarrow> unpack_i (py_slice data offset (offset + 4));
     let offset = offset + 4;
     fuel \<leftarrow> unpack_f (py_slice data offset (offset + 4));
     let offset = offset + 4;
     let offset = offset + 12;
     velocity_x \<leftarrow> unpack_f (py_slice data offset (offset + 4));
     let offset = offset + 4;
     velocity_y \<leftarrow> unpack_f (py_slice data offset (offset + 4));
     let offset = offset + 4;
     velocity_z \<leftarrow> unpack_f (py_slice data offset (offset + 4));
     let offset = offset + 4;
     accel_x \<leftarrow> unpack_f (py_slice data offset (offset + 4));
     let offset = offset + 4;
     accel_y \<leftarrow> unpack_f (py_slice data offset (offset + 4));
     let offset = offset + 4;
     accel_z \<leftarrow> unpack_f (py_slice data offset (offset + 4));
     let offset = offset + 4;
     (wheel_angular_speed, offset) \<leftarrow> read_floats 4 data offset;
     (wheel_slip, offset) \<leftarrow> read_floats 4 data offset;
     (wheel_load, offset) \<leftarrow> read_floats 4 data offset;
     (tire_pressure, offset) \<leftarrow> read_floats 4 data offset;
     (tire_temp_core, offset) \<leftarrow> read_floats 4 data offset;
     (suspension_travel, offset) \<leftarrow> read_floats 4 data offset;
     let speed_mph = fmul speed_kmh (float_lit (621371 / 1000000));
     rpm_int \<leftarrow> int_of_float rpm;
     max_rpm_int \<leftarrow> int_of_float max_rpm;
     let result =
       [(''speed_kmh'', PFloat speed_kmh),
        (''speed_mph'', PFloat speed_mph),
        (''rpm'', PInt rpm_int),
        (''max_rpm'', PInt max_rpm_int),
        (''gear'', PInt gear),
        (''g_force_lateral'', PFloat g_force_x),
        (''g_force_longitudinal'', PFloat g_force_y),
        (''g_force_vertical'', PFloat g_force_z),
        (''lap_time'', PFloat lap_time),
        (''last_lap'', PFloat last_lap),
        (''best_lap'', PFloat best_lap),
        (''lap_count'', PInt lap_count),
        (''fuel'', PFloat fuel),
        (''car_velocity'', PList [PFloat velocity_x, PFloat velocity_y, PFloat velocity_z]),
        (''car_acceleration'', PList [PFloat accel_x, PFloat accel_y, PFloat accel_z]),
        (''wheel_angular_speed'', PList (map PFloat wheel_angular_speed)),
        (''wheel_slip'', PList (map PFloat wheel_slip)),
        (''wheel_load'', PList (map PFloat wheel_load)),
        (''tire_pressure'', PList (map PFloat tire_pressure)),
        (''tire_temperature_core'', PList (map PFloat tire_temp_core)),
        (''suspension_travel'', PList (map PFloat suspension_travel)),
        (''packet_type'', PStr (str ''update''))];
     Some (dict_update result (calculate_derived_values gtotal result))
   }"

text \<open>
  \<open>_parse_update\<close>, with the parser's \<open>packet_count\<close> passed through: it counts
  the updates that were decoded. The empty dict is what a short payload and an
  exception give.
\<close>

definition parse_update :: "gforce \<Rightarrow> nat \<Rightarrow> byte list \<Rightarrow> dict \<times> nat" where
  "parse_update gtotal packet_count data =
     (if length data < 328 then ([], packet_count)
      else case parse_update_fields gtotal data of
          None \<Rightarrow> ([], packet_count)
        | Some result \<Rightarrow> (result, packet_count + 1))"

text \<open>
  \<open>parse\<close>: \<open>None\<close> or a dict, and the new \<open>packet_count\<close>. What the parser
  prints in its exception handlers is left out, and so is its \<open>last_data\<close>, which
  no method reads or writes after \<open>__init__\<close>.
\<close>

definition parse :: "gforce \<Rightarrow> nat \<Rightarrow> byte list \<Rightarrow> dict option \<times> nat" where
  "parse gtotal packet_count data =
     (if length data < 4 then (None, packet_count)
      else case unpack_I (py_slice data 0 4) of
          None \<Rightarrow> (None, packet_count)
        | Some packet_type \<Rightarrow>
            if packet_type = udp_type_value HANDSHAKER
              then (Some (parse_handshaker (drop 4 data)), packet_count)
            else if packet_type = udp_type_value UPDATE
              then (case parse_update gtotal packet_count (drop 4 data) of
                      (result, packet_count') \<Rightarrow> (Some result, packet_count'))
            else if packet_type = udp_type_value SPOT
              then (Some (parse_spot (drop 4 data)), packet_count)
            else (None, packet_count))"


section \<open>The dashboard (main.py)\<close>

text \<open>
  The state of \<open>ACTelemetryDashboard\<close> that the receive loop reads and writes:
  \<open>connected\<close>, \<open>current_data\<close>, \<open>last_update\<close>, the \<open>packet_count\<close> of its
  parser and the \<open>logging.enabled\<close> setting. \<open>logged\<close> collects the dicts handed to
  \<open>log_telemetry_data\<close> and \<open>journal\<close> the messages given to the logger. Times are
  clock ticks.
\<close>

type_synonym addr = "string \<times> nat"

datatype log_entry = Connected_from addr | Connection_timeout | Loop_error

record dashboard =
  connected :: bool
  current_data :: dict
  last_update :: "nat option"
  packet_count :: nat
  logging_enabled :: bool
  logged :: "dict list"
  journal :: "log_entry list"

text \<open>The state \<open>__init__\<close> sets up, for a given configuration.\<close>

definition dashboard_init :: "bool \<Rightarrow> dashboard" where
  "dashboard_init enabled =
     \<lparr>connected = False, current_data = [], last_update = None, packet_count = 0,
      logging_enabled = enabled, logged = [], journal = []\<rparr>"

text \<open>
  \<open>process_telemetry_data\<close>, called at time \<open>now\<close>. The test \<open>if parsed_data:\<close>
  fails on \<open>None\<close> and on the empty dict.
\<close>

definition process_telemetry_data :: "gforce \<Rightarrow> nat \<Rightarrow> byte list \<Rightarrow> dashboard \<Rightarrow> dashboard" where
  "process_telemetry_data gtotal now data s =
     (case parse gtotal (packet_count s) data of
        (parsed_data, packet_count') \<Rightarrow>
          let s = s\<lparr>packet_count := packet_count'\<rparr>
          in case parsed_data of
               None \<Rightarrow> s
             | Some d \<Rightarrow>
                 if d = [] then s
                 else s\<lparr>current_data := dict_update (current_data s) d,
                        last_update := Some now,
                        logged := (if logging_enabled s then logged s @ [d] else logged s)\<rparr>)"

text \<open>
  The thread of \<open>telemetry_loop\<close> is started only with a socket. One iteration
  is decided by what \<open>recvfrom\<close> does: it returns a datagram and its sender (at the
  time given), it raises \<open>socket.timeout\<close>, or it raises something else (the flag
  says whether \<open>self.running\<close> still holds in the handler). The loop runs the
  iterations in order, for as long as \<open>self.running\<close> holds.
\<close>

datatype event = Datagram "byte list" addr nat | Timeout | Failure bool

fun telemetry_step :: "gforce \<Rightarrow> dashboard \<Rightarrow> event \<Rightarrow> dashboard" where
  "telemetry_step gtotal s (Datagram data sender now) =
     (let s = process_telemetry_data gtotal now data s
      in if \<not> connected s
         then s\<lparr>connected := True, journal := journal s @ [Connected_from sender]\<rparr>
         else s)"
| "telemetry_step gtotal s Timeout =
     (if connected s
      then s\<lparr>connected := False, journal := journal s @ [Connection_timeout]\<rparr>
      else s)"
| "telemetry_step gtotal s (Failure running) =
     (if running then s\<lparr>journal := journal s @ [Loop_error]\<rparr> else s)"

definition telemetry_loop :: "gforce \<Rightarrow> dashboard \<Rightarrow> event list \<Rightarrow> dashboard" where
  "telemetry_loop gtotal s events = foldl (telemetry_step gtotal) s events"

text \<open>
  The connection monitor as the specification words it: two states, Disconnected at
  the start, Connected after a receive, Disconnected after a timeout, and no other
  transition.
\<close>

datatype connection_state = Disconnected | Connected

fun monitor_step :: "connection_state \<Rightarrow> event \<Rightarrow> connection_state" where
  "monitor_step Disconnected (Datagram data sender now) = Connected"
| "monitor_step Connected Timeout = Disconnected"
| "monitor_step c _ = c"

definition connection_monitor :: "event list \<Rightarrow> connection_state" where
  "connection_monitor events = foldl monitor_step Disconnected events"

definition connection_state_of :: "dashboard \<Rightarrow> connection_state" where
  "connection_state_of s = (if connected s then Connected else Disconnected)"

section \<open>The vehicle controls (vehicle\_controls.py)\<close>

datatype ACControlCommand =
    TC_LEVEL | ABS_LEVEL | BRAKE_BIAS | TURBO_PRESSURE | HEADLIGHTS | LEFT_INDICATOR
  | RIGHT_INDICATOR | HAZARD_LIGHTS | WIPERS | PIT_LIMITER | OPEN_PIT_MENU | ENGINE_MAP
  | IGNITION

fun command_value :: "ACControlCommand \<Rightarrow> int" where
  "command_value TC_LEVEL = 1"
| "command_value ABS_LEVEL = 2"
| "command_value BRAKE_BIAS = 3"
| "command_value TURBO_PRESSURE = 4"
| "command_value HEADLIGHTS = 5"
| "command_value LEFT_INDICATOR = 6"
| "command_value RIGHT_INDICATOR = 7"
| "command_value HAZARD_LIGHTS = 8"
| "command_value WIPERS = 9"
| "command_value PIT_LIMITER = 10"
| "command_value OPEN_PIT_MENU = 11"
| "command_value ENGINE_MAP = 12"
| "command_value IGNITION = 13"

definition command_map :: "(string \<times> ACControlCommand) list" where
  "command_map =
     [(''tc_level'', TC_LEVEL),
      (''abs_level'', ABS_LEVEL),
      (''brake_bias'', BRAKE_BIAS),
      (''turbo_pressure'', TURBO_PRESSURE),
      (''headlights'', HEADLIGHTS),
      (''left_indicator'', LEFT_INDICATOR),
      (''right_indicator'', RIGHT_INDICATOR),
      (''hazard_lights'', HAZARD_LIGHTS),
      (''wipers'', WIPERS),
      (''pit_limiter'', PIT_LIMITER),
      (''open_pit_menu'', OPEN_PIT_MENU),
      (''engine_map'', ENGINE_MAP),
      (''ignition'', IGNITION)]"

definition get_command_type :: "string \<Rightarrow> ACControlCommand option" where
  "get_command_type command = map_of command_map command"

text \<open>
  What the module prints. \<open>_build_command_packet\<close> returns the packet, or prints a
  message and returns \<open>None\<close>: the message stands for that outcome (\<open>Build_failed\<close>
  for an exception of \<open>struct.pack\<close>).
\<close>

datatype message =
    Unknown_command string
  | Unsupported_value_type
  | Build_failed
  | Sent_command string pyval
  | Send_failed string

definition build_command_packet :: "ACControlCommand \<Rightarrow> pyval \<Rightarrow> message + byte list" where
  "build_command_packet command_type v =
     (case (do {
              packet \<leftarrow> pack_I (command_value command_type);
              case v of
                PBool b \<Rightarrow> do {
                  value_type \<leftarrow> pack_I 1;
                  x \<leftarrow> pack_I (if b then 1 else 0);
                  Some (Inr (packet @ value_type @ x)) }
              | PInt i \<Rightarrow> do {
                  value_type \<leftarrow> pack_I 2;
                  x \<leftarrow> pack_i i;
                  Some (Inr (packet @ value_type @ x)) }
              | PFloat f \<Rightarrow> do {
                  value_type \<leftarrow> pack_I 3;
                  x \<leftarrow> pack_f f;
                  Some (Inr (packet @ value_type @ x)) }
              | _ \<Rightarrow> Some (Inl Unsupported_value_type)
            }) of
        None \<Rightarrow> Inl Build_failed
      | Some r \<Rightarrow> r)"

text \<open>
  The state of \<open>VehicleControls\<close>: whether the socket was created, the destination,
  the history \<open>last_commands\<close>, the datagrams handed to \<open>sendto\<close> and the printed
  messages.
\<close>

record command_record =
  rec_value :: pyval
  rec_timestamp :: pyfloat

record controls =
  control_socket :: bool
  control_host :: string
  control_port :: nat
  last_commands :: "string \<rightharpoonup> command_record"
  outbox :: "(byte list \<times> string \<times> nat) list"
  console :: "message list"

text \<open>
  \<open>send_command\<close>; \<open>accepted\<close> says whether \<open>sendto\<close> returns (it raises
  otherwise) and \<open>now\<close> is \<open>time.time()\<close>.
\<close>

definition send_command :: "bool \<Rightarrow> pyfloat \<Rightarrow> string \<Rightarrow> pyval \<Rightarrow> controls \<Rightarrow> bool \<times> controls" where
  "send_command accepted now command v s =
     (if \<not> control_socket s then (False, s)
      else case get_command_type command of
          None \<Rightarrow> (False, s\<lparr>console := console s @ [Unknown_command command]\<rparr>)
        | Some command_type \<Rightarrow>
            (case build_command_packet command_type v of
               Inl m \<Rightarrow> (False, s\<lparr>console := console s @ [m]\<rparr>)
             | Inr packet \<Rightarrow>
                 if packet = [] then (False, s)
                 else if \<not> accepted
                   then (False, s\<lparr>console := console s @ [Send_failed command]\<rparr>)
                 else (True,
                       s\<lparr>outbox := outbox s @ [(packet, control_host s, control_port s)],
                         last_commands :=
                           (last_commands s)(command \<mapsto> \<lparr>rec_value = v, rec_timestamp = now\<rparr>),
                         console := console s @ [Sent_command command v]\<rparr>)))"

definition get_last_command :: "controls \<Rightarrow> string \<Rightarrow> command_record option" where
  "get_last_command s command = last_commands s command"


section \<open>The offset table of the specification\<close>

text \<open>
  The specification gives the Update payload as a table of absolute offsets.
  \<open>f32_at\<close> and \<open>i32_at\<close> are the little-endian binary32 and signed 32-bit
  values at an offset, \<open>floats4_at\<close> four consecutive floats (front left, front
  right, rear left, rear right), \<open>seconds\<close> a lap time in milliseconds divided by
  \<open>1000.0\<close>, and \<open>update_layout\<close> the dict of the decoded fields read at the
  offsets of the table, for given integer values of \<open>rpm\<close> and \<open>max_rpm\<close>.
\<close>

definition f32_at :: "byte list \<Rightarrow> nat \<Rightarrow> pyfloat" where
  "f32_at payload off = f32_value (le_nat (take 4 (drop off payload)))"

definition i32_at :: "byte list \<Rightarrow> nat \<Rightarrow> int" where
  "i32_at payload off =
     (let n = le_nat (take 4 (drop off payload)) in if n < 2 ^ 31 then int n else int n - 2 ^ 32)"

definition floats4_at :: "byte list \<Rightarrow> nat \<Rightarrow> pyval" where
  "floats4_at payload off =
     PList [PFloat (f32_at payload off), PFloat (f32_at payload (off + 4)),
            PFloat (f32_at payload (off + 8)), PFloat (f32_at payload (off + 12))]"

definition seconds :: "int \<Rightarrow> pyfloat" where
  "seconds ms = mk_double (ms < 0) (\<bar>of_int ms\<bar> / 1000)"

definition update_layout :: "byte list \<Rightarrow> int \<Rightarrow> int \<Rightarrow> dict" where
  "update_layout payload rpm max_rpm =
     [(''speed_kmh'', PFloat (f32_at payload 0)),
      (''speed_mph'', PFloat (fmul (f32_at payload 0) (float_lit (621371 / 1000000)))),
      (''rpm'', PInt rpm),
      (''max_rpm'', PInt max_rpm),
      (''gear'', PInt (i32_at payload 20)),
      (''g_force_lateral'', PFloat (f32_at payload 24)),
      (''g_force_longitudinal'', PFloat (f32_at payload 28)),
      (''g_force_vertical'', PFloat (f32_at payload 32)),
      (''lap_time'', PFloat (seconds (i32_at payload 36))),
      (''last_lap'', PFloat (seconds (i32_at payload 40))),
      (''best_lap'', PFloat (seconds (i32_at payload 44))),
      (''lap_count'', PInt (i32_at payload 48)),
      (''fuel'', PFloat (f32_at payload 52)),
      (''car_velocity'',
         PList [PFloat (f32_at payload 68), PFloat (f32_at payload 72), PFloat (f32_at payload 76)]),
      (''car_acceleration'',
         PList [PFloat (f32_at payload 80), PFloat (f32_at payload 84), PFloat (f32_at payload 88)]),
      (''wheel_angular_speed'', floats4_at payload 92),
      (''wheel_slip'', floats4_at payload 108),
      (''wheel_load'', floats4_at payload 124),
      (''tire_pressure'', floats4_at payload 140),
      (''tire_temperature_core'', floats4_at payload 156),
      (''suspension_travel'', floats4_at payload 172),
      (''packet_type'', PStr (str ''update''))]"


section \<open>Concrete inputs\<close>

text \<open>
  For the evaluation of the model at concrete datagrams: a C library whose \<open>pow\<close>
  gives no result (no theorem depends on the choice), a dashboard as \<open>__init__\<close>
  leaves it, and controls whose socket was created.
\<close>

definition gforce_raises :: gforce where
  "gforce_raises g_lat g_lon = None"

definition fresh_dashboard :: dashboard where
  "fresh_dashboard = dashboard_init False"

definition fresh_controls :: controls where
  "fresh_controls =
     \<lparr>control_socket = True, control_host = ''localhost'', control_port = 9997,
      last_commands = Map.empty, outbox = [], console = []\<rparr>"

text \<open>
  Three Update payloads of 328 bytes: the scenario of the specification (120 km/h,
  7200 of 8000 rpm, gear 4, tyres at 1.9 bar), an engine reporting 1 rpm with a
  \<open>max_rpm\<close> of 0, and a payload whose \<open>rpm\<close> is a NaN.
\<close>

definition sample_payload :: "byte list" where
  "sample_payload =
     [0, 0, 0xF0, 0x42] @ replicate 8 0 @ [0, 0, 0xE1, 0x45] @ [0, 0, 0xFA, 0x45] @ [4, 0, 0, 0]
       @ replicate 116 0
       @ [0x33, 0x33, 0xF3, 0x3F, 0x33, 0x33, 0xF3, 0x3F, 0x33, 0x33, 0xF3, 0x3F,
          0x33, 0x33, 0xF3, 0x3F]
       @ replicate 172 0"

definition idle_payload :: "byte list" where
  "idle_payload = replicate 12 0 @ [0, 0, 0x80, 0x3F] @ replicate 312 0"

definition nan_payload :: "byte list" where
  "nan_payload = replicate 12 0 @ [0, 0, 0xC0, 0x7F] @ replicate 312 0"

section \<open>Properties\<close>

subsection \<open>Byte strings\<close>

lemma le_bytes_4:
  "le_bytes 4 v =
     [of_nat (v mod 256), of_nat (v div 256 mod 256),
      of_nat (v div 256 div 256 mod 256), of_nat (v div 256 div 256 div 256 mod 256)]"
proof -
  have "(4::nat) = Suc (Suc (Suc (Suc 0)))" by simp
  then show ?thesis by (simp only: le_bytes.simps)
qed

lemma length_le_bytes [simp]: "length (le_bytes n v) = n"
  by (induction n arbitrary: v) auto

lemma le_nat_le_bytes: "le_nat (le_bytes n v) = v mod 256 ^ n"
proof (induction n arbitrary: v)
  case 0
  then show ?case by simp
next
  case (Suc n)
  have "unat (word_of_nat (v mod 256) :: byte) = v mod 256"
    by (simp add: unat_of_nat)
  then show ?case
    using Suc [of "v div 256"] by (simp add: mod_mult2_eq)
qed

lemma le_nat_zeros [simp]: "le_nat (replicate n 0) = 0"
  by (induction n) simp_all

subsection \<open>Dispatch on the packet type\<close>

text \<open>
  Every datagram of at least four bytes is its tag, little-endian, followed by its
  payload; \<open>parse\<close> hands the payload to the parser of the tag.
\<close>

lemma unpack_tag:
  "t < 2 ^ 32 \<Longrightarrow> unpack_I (py_slice (le_bytes 4 t @ payload) 0 4) = Some t"
  by (simp add: unpack_I_def py_slice_def le_nat_le_bytes)

lemma parse_tagged:
  assumes "t < 2 ^ 32"
  shows "parse gtotal pc (le_bytes 4 t @ payload) =
     (if t = 0 then (Some (parse_handshaker payload), pc)
      else if t = 1 then (case parse_update gtotal pc payload of (r, pc') \<Rightarrow> (Some r, pc'))
      else if t = 2 then (Some (parse_spot payload), pc)
      else (None, pc))"
  using assms by (simp add: parse_def unpack_tag)

lemma spot_decoded:
  "parse gtotal pc (le_bytes 4 (udp_type_value SPOT) @ payload)
     = (Some [(''packet_type'', PStr (str ''spot''))], pc)"
  by (simp add: parse_tagged parse_spot_def)

text \<open>
  C2. An Update datagram whose payload is shorter than 328 bytes decodes to the empty
  dict, the failure value of the parser, which carries no field. The caller then
  changes nothing: \<open>current_data\<close>, \<open>last_update\<close>, the log and the parser's packet
  count are as before.
\<close>

theorem truncated_update_changes_nothing:
  assumes "length payload < 328"
  shows "parse gtotal pc (le_bytes 4 (udp_type_value UPDATE) @ payload) = (Some [], pc)
     \<and> process_telemetry_data gtotal now (le_bytes 4 (udp_type_value UPDATE) @ payload) s = s"
  using assms by (simp add: parse_tagged parse_update_def process_telemetry_data_def)

theorem truncated_update_changes_nothing_witness:
  "length [0, 0, 0xF0, 0x42 :: byte] < 328
     \<and> parse gforce_raises 7 (le_bytes 4 (udp_type_value UPDATE) @ [0, 0, 0xF0, 0x42]) = (Some [], 7)
     \<and> process_telemetry_data gforce_raises 5
          (le_bytes 4 (udp_type_value UPDATE) @ [0, 0, 0xF0, 0x42]) fresh_dashboard = fresh_dashboard"
proof -
  have short: "length [0, 0, 0xF0, 0x42 :: byte] < 328" by simp
  show ?thesis
    using short truncated_update_changes_nothing [OF short, of gforce_raises 7 5 fresh_dashboard]
    by blast
qed

text \<open>
  C3. The enumeration of packet types declares DISMISS, and a Spot datagram decodes
  to a dict with its packet type alone (\<open>spot_decoded\<close>), but \<open>parse\<close> has no
  branch for DISMISS: a Dismiss datagram gets \<open>None\<close>, as an unknown tag does.
\<close>

theorem dismiss_not_decoded:
  "parse gtotal pc (le_bytes 4 (udp_type_value DISMISS) @ payload) = (None, pc)"
  by (simp add: parse_tagged)

text \<open>
  C7 as the code has it. A Handshake datagram whose payload is shorter than 8 bytes
  decodes to the empty dict, which has no name field and is the value a truncated
  Update gives; the caller changes nothing.
\<close>

theorem short_handshake_is_empty:
  assumes "length payload < 8"
  shows "parse gtotal pc (le_bytes 4 (udp_type_value HANDSHAKER) @ payload) = (Some [], pc)
     \<and> process_telemetry_data gtotal now (le_bytes 4 (udp_type_value HANDSHAKER) @ payload) s = s"
  using assms by (simp add: parse_tagged parse_handshaker_def process_telemetry_data_def)

theorem short_handshake_is_empty_witness:
  "length [5, 0, 0, 0, 3 :: byte] < 8
     \<and> parse gforce_raises 7 (le_bytes 4 (udp_type_value HANDSHAKER) @ [5, 0, 0, 0, 3]) = (Some [], 7)
     \<and> process_telemetry_data gforce_raises 5
          (le_bytes 4 (udp_type_value HANDSHAKER) @ [5, 0, 0, 0, 3]) fresh_dashboard = fresh_dashboard"
proof -
  have short: "length [5, 0, 0, 0, 3 :: byte] < 8" by simp
  show ?thesis
    using short short_handshake_is_empty [OF short, of gforce_raises 7 5 fresh_dashboard]
    by blast
qed

text \<open>
  C7 as the specification states it fails on the Handshake datagram with an empty
  payload: the result has neither a \<open>car_name\<close> nor a \<open>driver_name\<close>.
\<close>

theorem short_handshake_counterexample:
  "parse gforce_raises 0 [0, 0, 0, 0] = (Some [], 0)
     \<and> dict_get [] ''car_name'' \<noteq> Some (PStr [])
     \<and> dict_get [] ''driver_name'' \<noteq> Some (PStr [])"
  using parse_tagged [of 0 gforce_raises 0 "[]"]
  by (simp add: parse_handshaker_def le_bytes_4 dict_get_def)

subsection \<open>The connection monitor\<close>

lemma connected_process [simp]:
  "connected (process_telemetry_data gtotal now data s) = connected s"
  by (simp add: process_telemetry_data_def Let_def split: prod.splits option.splits)

lemma step_refines:
  "connection_state_of (telemetry_step gtotal s ev) = monitor_step (connection_state_of s) ev"
  by (cases ev) (simp_all add: connection_state_of_def Let_def)

lemma loop_refines:
  "connection_state_of (foldl (telemetry_step gtotal) s events)
     = foldl monitor_step (connection_state_of s) events"
  by (induction events arbitrary: s) (simp_all add: step_refines)

text \<open>
  C4. Whatever the receive loop is fed, after every sequence of events its
  \<open>connected\<close> flag is the state of the specification's monitor: Disconnected at
  the start, Connected after a receive, Disconnected after a timeout, and unchanged
  otherwise (a receive while connected and a timeout while disconnected included).
\<close>

theorem loop_follows_monitor:
  "connection_state_of (telemetry_loop gtotal (dashboard_init enabled) events)
     = connection_monitor events"
  by (simp add: telemetry_loop_def connection_monitor_def loop_refines)
     (simp add: connection_state_of_def dashboard_init_def)

theorem loop_follows_monitor_witness:
  "connection_state_of
     (telemetry_loop gforce_raises (dashboard_init False)
        [Timeout, Datagram [] (''127.0.0.1'', 9996) 1, Datagram [] (''127.0.0.1'', 9996) 2,
         Failure True, Timeout]) = Disconnected
   \<and> connection_state_of
     (telemetry_loop gforce_raises (dashboard_init False)
        [Timeout, Datagram [] (''127.0.0.1'', 9996) 1, Datagram [] (''127.0.0.1'', 9996) 2,
         Failure True]) = Connected"
  using loop_follows_monitor [of gforce_raises False
          "[Timeout, Datagram [] (''127.0.0.1'', 9996) 1, Datagram [] (''127.0.0.1'', 9996) 2,
            Failure True, Timeout]"]
        loop_follows_monitor [of gforce_raises False
          "[Timeout, Datagram [] (''127.0.0.1'', 9996) 1, Datagram [] (''127.0.0.1'', 9996) 2,
            Failure True]"]
  by (simp add: connection_monitor_def)

subsection \<open>Sending a command\<close>

lemma pack_command_value:
  "pack_I (command_value command_type) = Some (le_bytes 4 (nat (command_value command_type)))"
  by (cases command_type) (simp_all add: pack_I_def)

text \<open>
  C6. For a command name that the registry does not have, \<open>send_command\<close> returns
  \<open>False\<close> at once; all it does, when the socket exists, is print that the command
  is unknown. No datagram is sent and the history is as before.
\<close>

theorem unknown_command_rejected:
  assumes "command \<notin> fst ` set command_map"
  shows "send_command accepted now command v s
           = (False, if control_socket s
                     then s\<lparr>console := console s @ [Unknown_command command]\<rparr> else s)
     \<and> outbox (snd (send_command accepted now command v s)) = outbox s
     \<and> last_commands (snd (send_command accepted now command v s)) = last_commands s"
proof -
  from assms have "get_command_type command = None"
    by (simp add: get_command_type_def map_of_eq_None_iff)
  then show ?thesis by (simp add: send_command_def)
qed

theorem unknown_command_rejected_witness:
  "''warp_drive'' \<notin> fst ` set command_map
     \<and> send_command True (Finite False 100) ''warp_drive'' (PInt 9) fresh_controls
          = (False, fresh_controls\<lparr>console := [Unknown_command ''warp_drive'']\<rparr>)
     \<and> outbox (snd (send_command True (Finite False 100) ''warp_drive'' (PInt 9) fresh_controls)) = []
     \<and> last_commands (snd (send_command True (Finite False 100) ''warp_drive'' (PInt 9) fresh_controls))
          = Map.empty"
proof -
  have unknown: "''warp_drive'' \<notin> fst ` set command_map"
    by (simp add: command_map_def)
  show ?thesis
    using unknown
      unknown_command_rejected [OF unknown, of True "Finite False 100" "PInt 9" fresh_controls]
    by (simp add: fresh_controls_def)
qed

text \<open>
  C10. For a known command and a value that is neither a bool, an int nor a float,
  \<open>send_command\<close> returns \<open>False\<close>; all it does, when the socket exists, is print
  that the type of the value is not supported. No datagram is sent, the history is
  as before, and so is the last record of the command.
\<close>

theorem unsupported_value_rejected:
  assumes "get_command_type command = Some command_type"
    and "\<forall>b. v \<noteq> PBool b" and "\<forall>i. v \<noteq> PInt i" and "\<forall>f. v \<noteq> PFloat f"
  shows "send_command accepted now command v s
           = (False, if control_socket s
                     then s\<lparr>console := console s @ [Unsupported_value_type]\<rparr> else s)
     \<and> outbox (snd (send_command accepted now command v s)) = outbox s
     \<and> last_commands (snd (send_command accepted now command v s)) = last_commands s
     \<and> get_last_command (snd (send_command accepted now command v s)) command
          = get_last_command s command"
proof -
  have "build_command_packet command_type v = Inl Unsupported_value_type"
    using assms(2-4) by (cases v) (auto simp add: build_command_packet_def pack_command_value)
  then show ?thesis using assms(1) by (simp add: send_command_def get_last_command_def)
qed

theorem unsupported_value_rejected_witness:
  "get_command_type ''tc_level'' = Some TC_LEVEL
     \<and> (\<forall>b. PStr (str ''3'') \<noteq> PBool b) \<and> (\<forall>i. PStr (str ''3'') \<noteq> PInt i)
     \<and> (\<forall>f. PStr (str ''3'') \<noteq> PFloat f)
     \<and> send_command True (Finite False 100) ''tc_level'' (PStr (str ''3'')) fresh_controls
          = (False, fresh_controls\<lparr>console := [Unsupported_value_type]\<rparr>)
     \<and> get_last_command
          (snd (send_command True (Finite False 100) ''tc_level'' (PStr (str ''3'')) fresh_controls))
          ''tc_level'' = None"
proof -
  have known: "get_command_type ''tc_level'' = Some TC_LEVEL"
    by (simp add: get_command_type_def command_map_def)
  have other: "\<forall>b. PStr (str ''3'') \<noteq> PBool b" "\<forall>i. PStr (str ''3'') \<noteq> PInt i"
    "\<forall>f. PStr (str ''3'') \<noteq> PFloat f"
    by simp_all
  show ?thesis
    using known other
      unsupported_value_rejected [OF known other, of True "Finite False 100" fresh_controls]
    by (simp add: fresh_controls_def get_last_command_def)
qed


subsection \<open>Rounding\<close>

text \<open>
  \<open>ilog2\<close> finds the binade of a positive number, and rounding leaves a magnitude
  alone that the format represents: \<open>n * 2^e\<close> with \<open>n\<close> of at most \<open>p\<close> bits and
  \<open>e\<close> not below the smallest exponent.
\<close>

lemma bitlen_between:
  assumes "2 ^ n \<le> a" and "a < 2 ^ (n + 1)"
  shows "bitlen a = int n + 1"
proof -
  have "bitlen (2 ^ n + (a - 2 ^ n)) = int (n + 1)"
    using assms by (intro bitlen_twopow_add_eq) auto
  then show ?thesis by simp
qed

lemma ilog2_eq:
  assumes lo: "2 powi k \<le> x" and hi: "x < 2 powi (k + 1)"
  shows "ilog2 x = k"
proof (cases "0 \<le> k")
  case True
  define n where "n = nat k"
  have k: "k = int n" using True by (simp add: n_def)
  have lo': "2 ^ n \<le> x" using lo by (simp add: k power_int_of_nat)
  have "k + 1 = int (n + 1)" by (simp add: k)
  then have hi': "x < 2 ^ (n + 1)" using hi by (metis power_int_of_nat)
  have "1 \<le> x" using lo' one_le_power [of "2::real" n] by linarith
  moreover have "(2::int) ^ n \<le> \<lfloor>x\<rfloor>" using lo' by (simp add: le_floor_iff)
  moreover have "\<lfloor>x\<rfloor> < 2 ^ (n + 1)" using hi' by (simp add: floor_less_iff)
  ultimately show ?thesis
    using bitlen_between [of n "\<lfloor>x\<rfloor>"] by (simp add: ilog2_def k)
next
  case False
  define j where "j = nat (- k - 1)"
  have k: "k = - int (j + 1)" using False by (simp add: j_def)
  have k1: "k + 1 = - int j" by (simp add: k)
  have lo': "1 / 2 ^ (j + 1) \<le> x"
    using lo unfolding k power_int_minus_divide power_int_of_nat .
  have hi': "x < 1 / 2 ^ j"
    using hi unfolding k1 power_int_minus_divide power_int_of_nat .
  have "0 < 1 / (2::real) ^ (j + 1)" by simp
  with lo' have pos: "0 < x" by linarith
  have "1 / 2 ^ j \<le> (1::real)" by simp
  then have small: "\<not> 1 \<le> x" using hi' by linarith
  have up: "1 / x \<le> 2 ^ (j + 1)"
    using lo' pos by (simp add: field_simps)
  have down: "2 ^ j < 1 / x"
    using hi' pos by (simp add: field_simps)
  have "(2::int) ^ j < \<lceil>1 / x\<rceil>"
    using down by (simp add: less_ceiling_iff)
  then have "(2::int) ^ j \<le> \<lceil>1 / x\<rceil> - 1" by linarith
  moreover have "\<lceil>1 / x\<rceil> \<le> 2 ^ (j + 1)"
    using up by (simp add: ceiling_le_iff)
  then have "\<lceil>1 / x\<rceil> - 1 < 2 ^ (j + 1)" by linarith
  ultimately show ?thesis
    using bitlen_between [of j "\<lceil>1 / x\<rceil> - 1"] small by (simp add: ilog2_def k)
qed

lemma ilog2_floor_log:
  assumes "0 < x"
  shows "ilog2 x = \<lfloor>log 2 x\<rfloor>"
proof -
  define k where "k = \<lfloor>log 2 x\<rfloor>"
  have "2 powr real_of_int k \<le> x \<and> x < 2 powr real_of_int (k + 1)"
    using floor_log_eq_powr_iff [of x 2 k] assms by (simp only: k_def) simp
  then have "2 powi k \<le> x \<and> x < 2 powi (k + 1)"
    using powr_real_of_int' [of 2 k] powr_real_of_int' [of 2 "k + 1"] by simp
  then show ?thesis by (simp add: ilog2_eq k_def)
qed

lemma ilog2_lower: "0 < x \<Longrightarrow> 2 powi ilog2 x \<le> x"
  using floor_log_eq_powr_iff [of x 2 "\<lfloor>log 2 x\<rfloor>"] powr_real_of_int' [of 2 "\<lfloor>log 2 x\<rfloor>"]
  by (simp add: ilog2_floor_log)

lemma ilog2_less:
  assumes "0 < x" and "x < 2 powi m"
  shows "ilog2 x < m"
proof (rule ccontr)
  assume "\<not> ilog2 x < m"
  then have "(2::real) powi m \<le> 2 powi ilog2 x"
    by (intro power_int_increasing) auto
  with ilog2_lower [OF assms(1)] assms(2) show False by linarith
qed

lemma round_even_of_int [simp]: "round_even (of_int n) = n"
  by (simp add: round_even_def)

lemma round_to_exact:
  assumes "0 < n" and "n < 2 ^ p" and "qmin \<le> e"
  shows "round_to p qmin (of_int n * 2 powi e) = of_int n * 2 powi e"
proof -
  define x :: real where "x = of_int n * 2 powi e"
  have pos: "0 < x" using assms(1) by (simp add: x_def zero_less_power_int)
  have "x < 2 ^ p * 2 powi e"
  proof -
    have "real_of_int n < 2 ^ p" using assms(2) by (metis of_int_less_numeral_power_cancel_iff)
    then show ?thesis unfolding x_def by (simp add: zero_less_power_int)
  qed
  also have "\<dots> = 2 powi (int p + e)"
    by (simp add: power_int_add power_int_of_nat)
  finally have "ilog2 x < int p + e" using pos by (rule ilog2_less [rotated])
  then have q: "max (ilog2 x - int p + 1) qmin \<le> e" using assms(3) by simp
  define q where "q = max (ilog2 x - int p + 1) qmin"
  have qe: "q \<le> e" using q by (simp add: q_def)
  have "x / 2 powi q = of_int n * 2 powi (e - q)"
    by (simp add: x_def power_int_diff)
  also have "\<dots> = of_int (n * 2 ^ nat (e - q))"
    using qe by (simp add: power_int_def)
  finally have "round_even (x / 2 powi q) = n * 2 ^ nat (e - q)"
    by (simp only: round_even_of_int)
  then have "real_of_int (round_even (x / 2 powi q)) * 2 powi q
      = real_of_int n * (2 powi (e - q) * 2 powi q)"
    using qe by (simp add: power_int_def)
  also have "\<dots> = x"
    by (simp add: x_def flip: power_int_add)
  finally show ?thesis
    using pos by (simp add: round_to_def Let_def flip: x_def q_def)
qed

subsection \<open>Packing a binary32 value\<close>

text \<open>
  \<open>struct.pack('<f', x)\<close> of a float that binary32 represents gives back its bit
  pattern: zeros, subnormal and normal numbers and infinities, of either sign.
\<close>

lemma pack_f_zero: "pack_f (Finite s 0) = Some (le_bytes 4 (sign_bit s))"
  by (simp add: round_to_def f32_fields_def)

lemma pack_f_subnormal:
  assumes "0 < F" and "F < 2 ^ 23"
  shows "pack_f (Finite s (real F * 2 powi (- 149))) = Some (le_bytes 4 (sign_bit s + F))"
proof -
  define m where "m = real F * 2 powi (- 149)"
  have r: "round_to 24 (- 149) m = m"
    using round_to_exact [of "int F" 24 "- 149" "- 149"] assms by (simp add: m_def)
  have "real F < 2 ^ 23" using assms(2) by (metis of_nat_less_numeral_power_cancel_iff)
  then have "m < 2 ^ 23 * 2 powi (- 149)"
    unfolding m_def by (simp add: zero_less_power_int)
  also have "\<dots> = 2 powi (- 126)"
    by (simp add: power_int_minus_divide)
  finally have small: "m < 2 powi (- 126)" .
  have "2 powi (- 126) \<le> (2::real) ^ 128"
    by (simp add: power_int_minus_divide)
  with small have fits: "\<not> 2 ^ 128 \<le> m" by linarith
  have "m * 2 ^ 149 = real F"
    by (simp add: m_def power_int_minus_divide)
  then have "nat \<lfloor>m * 2 ^ 149\<rfloor> = F" by simp
  then have "f32_fields m = F" using small by (simp add: f32_fields_def)
  then have "pack_f (Finite s m) = Some (le_bytes 4 (sign_bit s + F))"
    using r fits by (simp add: Let_def)
  then show ?thesis unfolding m_def .
qed

lemma pack_f_normal:
  assumes "1 \<le> E" and "E \<le> 254" and "F < 2 ^ 23"
  shows "pack_f (Finite s (real (2 ^ 23 + F) * 2 powi (int E - 150)))
           = Some (le_bytes 4 (sign_bit s + E * 2 ^ 23 + F))"
proof -
  define m where "m = real (2 ^ 23 + F) * 2 powi (int E - 150)"
  have "int (2 ^ 23 + F) < 2 ^ 24" using assms(3) by simp
  then have r: "round_to 24 (- 149) m = m"
    using round_to_exact [of "int (2 ^ 23 + F)" 24 "- 149" "int E - 150"] assms(1)
    by (simp add: m_def)
  have p: "0 < (2::real) powi (int E - 150)" by (simp add: zero_less_power_int)
  have "2 ^ 23 * 2 powi (int E - 150) \<le> m"
    unfolding m_def using p by (intro mult_right_mono) auto
  moreover have "(2::real) ^ 23 * 2 powi (int E - 150) = 2 powi (int E - 127)"
    using power_int_add [of "2::real" 23 "int E - 150"] by simp
  ultimately have lo: "2 powi (int E - 127) \<le> m" by simp
  have "real (2 ^ 23 + F) < 2 ^ 24" using assms(3) by simp
  then have "m < 2 ^ 24 * 2 powi (int E - 150)"
    unfolding m_def using p by (intro mult_strict_right_mono) auto
  moreover have "(2::real) ^ 24 * 2 powi (int E - 150) = 2 powi (int E - 126)"
    using power_int_add [of "2::real" 24 "int E - 150"] by simp
  ultimately have hi: "m < 2 powi (int E - 126)" by simp
  have e: "ilog2 m = int E - 127"
    using lo hi by (intro ilog2_eq) (simp_all add: algebra_simps)
  have "(2::real) powi (int E - 126) \<le> 2 powi 128"
    using assms(2) by (intro power_int_increasing) auto
  with hi have fits: "\<not> 2 ^ 128 \<le> m" by simp
  have "(2::real) powi (- 126) \<le> 2 powi (int E - 127)"
    using assms(1) by (intro power_int_increasing) auto
  with lo have normal: "\<not> m < 2 powi (- 126)" by linarith
  have "m * 2 powi (23 - (int E - 127)) = real (2 ^ 23 + F) * (2 powi (int E - 150) * 2 powi (150 - int E))"
    by (simp add: m_def algebra_simps)
  also have "2 powi (int E - 150) * 2 powi (150 - int E) = (1::real)"
    using power_int_add [of "2::real" "int E - 150" "150 - int E"] by simp
  finally have "nat \<lfloor>m * 2 powi (23 - (int E - 127))\<rfloor> = 2 ^ 23 + F"
    by (metis floor_of_nat mult.right_neutral nat_int)
  moreover have "nat (int E - 127 + 126) = E - 1" by simp
  ultimately have "f32_fields m = (E - 1) * 2 ^ 23 + (2 ^ 23 + F)"
    using normal e by (simp add: f32_fields_def Let_def)
  also have "\<dots> = E * 2 ^ 23 + F"
    using assms(1) by (simp add: algebra_simps flip: power_Suc)
  finally have "pack_f (Finite s m) = Some (le_bytes 4 (sign_bit s + E * 2 ^ 23 + F))"
    using r fits by (simp add: Let_def add.assoc)
  then show ?thesis unfolding m_def .
qed

lemma f32_roundtrip_fields:
  assumes "S < 2" and "E < 256" and "F < 2 ^ 23"
  shows "pack_f (f32_value (S * 2 ^ 31 + E * 2 ^ 23 + F))
       = Some (le_bytes 4 (if E = 255 \<and> 0 < F \<and> F < 2 ^ 22
                           then S * 2 ^ 31 + E * 2 ^ 23 + F + 2 ^ 22
                           else S * 2 ^ 31 + E * 2 ^ 23 + F))"
proof -
  define n where "n = S * 2 ^ 31 + E * 2 ^ 23 + F"
  have low: "E * 2 ^ 23 + F < 2 ^ 31"
  proof -
    have "E * 2 ^ 23 + F < (E + 1) * 2 ^ 23" using assms(3) by simp
    also have "\<dots> \<le> 256 * 2 ^ 23" using assms(2) by (intro mult_right_mono) auto
    finally show ?thesis by simp
  qed
  have s: "n div 2 ^ 31 = S" using low by (simp add: n_def)
  have n: "n = (S * 256 + E) * 2 ^ 23 + F" by (simp add: n_def algebra_simps)
  have "n div 2 ^ 23 = S * 256 + E + F div 2 ^ 23"
    unfolding n by (rule div_mult_self3) simp
  then have "n div 2 ^ 23 = S * 256 + E" using assms(3) by simp
  then have e: "n div 2 ^ 23 mod 256 = E" using assms(2) by simp
  have "n mod 2 ^ 23 = F mod 2 ^ 23"
    unfolding n by (rule mod_mult_self3)
  then have f: "n mod 2 ^ 23 = F" using assms(3) by simp
  have sb: "sign_bit (S mod 2 = 1) = S * 2 ^ 31"
    using assms(1) by (cases "S = 0") (auto simp add: sign_bit_def)
  have v: "f32_value n =
     (if E = 255 then (if F = 0 then Infinity (S mod 2 = 1)
                       else NaN (S mod 2 = 1) ((2 ^ 22 + F mod 2 ^ 22) * 2 ^ 29))
      else if E = 0 then Finite (S mod 2 = 1) (real F * 2 powi (- 149))
      else Finite (S mod 2 = 1) (real (2 ^ 23 + F) * 2 powi (int E - 150)))"
    unfolding f32_value_def s e f Let_def by simp
  consider "E = 255" "F = 0" | "E = 255" "0 < F" "F < 2 ^ 22" | "E = 255" "2 ^ 22 \<le> F"
    | "E = 0" "F = 0" | "E = 0" "0 < F" | "1 \<le> E" "E \<le> 254"
    using assms(2) by linarith
  then have "pack_f (f32_value n)
      = Some (le_bytes 4 (if E = 255 \<and> 0 < F \<and> F < 2 ^ 22 then n + 2 ^ 22 else n))"
  proof cases
    case 1
    then show ?thesis using v sb by (simp add: n_def)
  next
    case 2
    then have "f32_value n = NaN (S mod 2 = 1) ((2 ^ 22 + F) * 2 ^ 29)"
      using v by simp
    moreover have "(2 ^ 22 + F) mod 2 ^ 22 = F" using 2(3) by simp
    ultimately have "pack_f (f32_value n) = Some (le_bytes 4 (S * 2 ^ 31 + 255 * 2 ^ 23 + 2 ^ 22 + F))"
      by (simp only: pack_f.simps sb nonzero_mult_div_cancel_right) simp
    moreover have "S * 2 ^ 31 + 255 * 2 ^ 23 + 2 ^ 22 + F = n + 2 ^ 22"
      using 2(1) by (simp add: n_def)
    ultimately have "pack_f (f32_value n) = Some (le_bytes 4 (n + 2 ^ 22))" by (simp only:)
    then show ?thesis using 2 by simp
  next
    case 3
    then have pos: "0 < F" by simp
    have split: "2 ^ 22 + F mod 2 ^ 22 = F"
    proof -
      have "F div 2 ^ 22 = 1" using 3(2) assms(3) by simp
      then show ?thesis using div_mult_mod_eq [of F "2 ^ 22"] by simp
    qed
    have "f32_value n = NaN (S mod 2 = 1) (F * 2 ^ 29)"
      using v 3(1) pos by (simp only: split) simp
    moreover have "F mod 2 ^ 22 = F - 2 ^ 22" using split by simp
    ultimately have "pack_f (f32_value n)
        = Some (le_bytes 4 (S * 2 ^ 31 + 255 * 2 ^ 23 + 2 ^ 22 + (F - 2 ^ 22)))"
      by (simp only: pack_f.simps sb nonzero_mult_div_cancel_right) simp
    moreover have "S * 2 ^ 31 + 255 * 2 ^ 23 + 2 ^ 22 + (F - 2 ^ 22) = n"
      using 3 by (simp add: n_def)
    ultimately have "pack_f (f32_value n) = Some (le_bytes 4 n)" by (simp only:)
    then show ?thesis using 3 by simp
  next
    case 4
    then show ?thesis using v sb pack_f_zero [of "S mod 2 = 1"] by (simp add: n_def)
  next
    case 5
    then show ?thesis
      using v sb pack_f_subnormal [OF 5(2) assms(3), of "S mod 2 = 1"] by (simp add: n_def)
  next
    case 6
    then show ?thesis
      using v sb pack_f_normal [OF 6 assms(3), of "S mod 2 = 1"] by (simp add: n_def)
  qed
  then show ?thesis by (simp only: n_def)
qed

lemma f32_roundtrip:
  assumes "n < 2 ^ 32"
  shows "pack_f (f32_value n)
       = Some (le_bytes 4 (if n div 2 ^ 23 mod 256 = 255 \<and> 0 < n mod 2 ^ 23 \<and> n mod 2 ^ 23 < 2 ^ 22
                           then n + 2 ^ 22 else n))"
proof -
  define S where "S = n div 2 ^ 31"
  define E where "E = n div 2 ^ 23 mod 256"
  define F where "F = n mod 2 ^ 23"
  have "n div 2 ^ 23 div 256 = S"
    by (simp add: S_def div_mult2_eq [symmetric])
  then have "n div 2 ^ 23 = S * 256 + E"
    unfolding E_def by (metis div_mult_mod_eq)
  moreover have "n = n div 2 ^ 23 * 2 ^ 23 + F"
    unfolding F_def by simp
  ultimately have n: "n = S * 2 ^ 31 + E * 2 ^ 23 + F"
    by (simp add: algebra_simps)
  have "S < 2" using assms(1) by (simp add: S_def less_mult_imp_div_less)
  moreover have "E < 256" by (simp add: E_def)
  moreover have "F < 2 ^ 23" by (simp add: F_def)
  ultimately have "pack_f (f32_value n)
       = Some (le_bytes 4 (if E = 255 \<and> 0 < F \<and> F < 2 ^ 22 then n + 2 ^ 22 else n))"
    using f32_roundtrip_fields [of S E F] by (simp only: n)
  then show ?thesis by (simp only: E_def F_def)
qed


lemma registry_codes:
  "map (\<lambda>(name, command_type). (name, command_value command_type)) command_map =
     [(''tc_level'', 1), (''abs_level'', 2), (''brake_bias'', 3), (''turbo_pressure'', 4),
      (''headlights'', 5), (''left_indicator'', 6), (''right_indicator'', 7),
      (''hazard_lights'', 8), (''wipers'', 9), (''pit_limiter'', 10), (''open_pit_menu'', 11),
      (''engine_map'', 12), (''ignition'', 13)]"
  by (simp add: command_map_def)

text \<open>
  C5. For a command of the registry, the packet built is the command code of the
  registry in four little-endian bytes, then the tag of the value type in four
  little-endian bytes (1 for a bool, 2 for an int, 3 for a float), then four bytes of
  value: 0 or 1 for a bool, the two's complement of an int of 32 bits, and for a
  float that binary32 represents, given by its bit pattern \<open>w\<close>, that very pattern:
  for the zeros, the subnormal and the normal numbers, the infinities and the quiet
  NaNs of either sign and of any payload. The float read from the pattern of a
  signalling NaN is the quiet NaN of the same sign and payload, and it is this quiet
  pattern that is sent. Any NaN, whether binary32 represents it or not, is sent with
  its sign and the top 22 bits of its payload, as a quiet NaN: the default NaN that
  \<open>inf - inf\<close> returns is sent as \<open>00 00 C0 FF\<close>. With a socket, this packet is the
  datagram that \<open>send_command\<close> hands to \<open>sendto\<close>.
\<close>

theorem command_datagram_layout:
  assumes "get_command_type command = Some command_type"
  shows "build_command_packet command_type (PBool b)
           = Inr (le_bytes 4 (nat (command_value command_type)) @ le_bytes 4 1
                    @ le_bytes 4 (if b then 1 else 0))
     \<and> (- (2 ^ 31) \<le> i \<and> i < 2 ^ 31 \<longrightarrow>
          build_command_packet command_type (PInt i)
            = Inr (le_bytes 4 (nat (command_value command_type)) @ le_bytes 4 2
                     @ le_bytes 4 (nat (i mod 2 ^ 32))))
     \<and> build_command_packet command_type (PFloat (f32_value (unat (w :: 32 word))))
           = Inr (le_bytes 4 (nat (command_value command_type)) @ le_bytes 4 3
                    @ le_bytes 4 (if unat w div 2 ^ 23 mod 256 = 255
                                     \<and> 0 < unat w mod 2 ^ 23 \<and> unat w mod 2 ^ 23 < 2 ^ 22
                                  then unat w + 2 ^ 22 else unat w))
     \<and> build_command_packet command_type (PFloat (NaN sg p))
           = Inr (le_bytes 4 (nat (command_value command_type)) @ le_bytes 4 3
                    @ le_bytes 4 (sign_bit sg + 255 * 2 ^ 23 + 2 ^ 22 + p div 2 ^ 29 mod 2 ^ 22))
     \<and> (control_socket s \<and> build_command_packet command_type v = Inr packet \<longrightarrow>
          outbox (snd (send_command True now command v s))
            = outbox s @ [(packet, control_host s, control_port s)])"
proof -
  have tags: "pack_I 1 = Some (le_bytes 4 1)" "pack_I 2 = Some (le_bytes 4 2)"
    "pack_I 3 = Some (le_bytes 4 3)" "pack_I 0 = Some (le_bytes 4 0)"
    by (simp_all add: pack_I_def)
  have "unat w < 2 ^ 32" using unsigned_less [of w] by simp
  then have float: "pack_f (f32_value (unat w))
      = Some (le_bytes 4 (if unat w div 2 ^ 23 mod 256 = 255
                             \<and> 0 < unat w mod 2 ^ 23 \<and> unat w mod 2 ^ 23 < 2 ^ 22
                          then unat w + 2 ^ 22 else unat w))"
    by (rule f32_roundtrip)
  have "packet \<noteq> []" if "build_command_packet command_type v = Inr packet"
  proof -
    from that obtain rest where "packet = le_bytes 4 (nat (command_value command_type)) @ rest"
      by (cases v) (auto simp add: build_command_packet_def pack_command_value
          split: option.splits bind_splits)
    then show ?thesis by (simp add: le_bytes_4)
  qed
  then have sent: "control_socket s \<and> build_command_packet command_type v = Inr packet \<longrightarrow>
      outbox (snd (send_command True now command v s))
        = outbox s @ [(packet, control_host s, control_port s)]"
    using assms by (simp add: send_command_def)
  have bool: "build_command_packet command_type (PBool b)
           = Inr (le_bytes 4 (nat (command_value command_type)) @ le_bytes 4 1
                    @ le_bytes 4 (if b then 1 else 0))"
    by (simp add: build_command_packet_def pack_command_value tags)
  have int: "- (2 ^ 31) \<le> i \<and> i < 2 ^ 31 \<longrightarrow>
          build_command_packet command_type (PInt i)
            = Inr (le_bytes 4 (nat (command_value command_type)) @ le_bytes 4 2
                     @ le_bytes 4 (nat (i mod 2 ^ 32)))"
    by (simp add: build_command_packet_def pack_command_value tags pack_i_def)
  have number: "build_command_packet command_type (PFloat (f32_value (unat w)))
           = Inr (le_bytes 4 (nat (command_value command_type)) @ le_bytes 4 3
                    @ le_bytes 4 (if unat w div 2 ^ 23 mod 256 = 255
                                     \<and> 0 < unat w mod 2 ^ 23 \<and> unat w mod 2 ^ 23 < 2 ^ 22
                                  then unat w + 2 ^ 22 else unat w))"
    using float by (simp add: build_command_packet_def pack_command_value tags)
  have nan: "build_command_packet command_type (PFloat (NaN sg p))
           = Inr (le_bytes 4 (nat (command_value command_type)) @ le_bytes 4 3
                    @ le_bytes 4 (sign_bit sg + 255 * 2 ^ 23 + 2 ^ 22 + p div 2 ^ 29 mod 2 ^ 22))"
    by (simp add: build_command_packet_def pack_command_value tags)
  show ?thesis using bool int number nan sent by blast
qed

theorem command_datagram_layout_witness:
  "get_command_type ''brake_bias'' = Some BRAKE_BIAS
     \<and> build_command_packet BRAKE_BIAS (PBool True) = Inr [3, 0, 0, 0, 1, 0, 0, 0, 1, 0, 0, 0]
     \<and> (- (2 ^ 31) \<le> (- 2 :: int) \<and> (- 2 :: int) < 2 ^ 31)
     \<and> build_command_packet BRAKE_BIAS (PInt (- 2))
           = Inr [3, 0, 0, 0, 2, 0, 0, 0, 0xFE, 0xFF, 0xFF, 0xFF]
     \<and> build_command_packet BRAKE_BIAS (PFloat (f32_value (unat (0x3F0CCCCD :: 32 word))))
           = Inr [3, 0, 0, 0, 3, 0, 0, 0, 0xCD, 0xCC, 0x0C, 0x3F]
     \<and> fsub (Infinity False) (Infinity False) = NaN True (2 ^ 51)
     \<and> build_command_packet BRAKE_BIAS (PFloat (NaN True (2 ^ 51)))
           = Inr [3, 0, 0, 0, 3, 0, 0, 0, 0x00, 0x00, 0xC0, 0xFF]
     \<and> control_socket fresh_controls
     \<and> outbox (snd (send_command True (Finite False 100) ''brake_bias'' (PBool True) fresh_controls))
           = [([3, 0, 0, 0, 1, 0, 0, 0, 1, 0, 0, 0], ''localhost'', 9997)]"
proof -
  have known: "get_command_type ''brake_bias'' = Some BRAKE_BIAS"
    by (simp add: get_command_type_def command_map_def)
  have range: "- (2 ^ 31) \<le> (- 2 :: int) \<and> (- 2 :: int) < 2 ^ 31" by simp
  have invalid: "fsub (Infinity False) (Infinity False) = NaN True (2 ^ 51)"
    by (simp add: default_nan_def)
  have socket: "control_socket fresh_controls" by (simp add: fresh_controls_def)
  note layout = command_datagram_layout [OF known, of True "- 2" "0x3F0CCCCD" True "2 ^ 51"
      fresh_controls "PBool True" "[3, 0, 0, 0, 1, 0, 0, 0, 1, 0, 0, 0]" "Finite False 100"]
  have bool: "build_command_packet BRAKE_BIAS (PBool True) = Inr [3, 0, 0, 0, 1, 0, 0, 0, 1, 0, 0, 0]"
    using layout by (simp add: le_bytes_4)
  have nan: "build_command_packet BRAKE_BIAS (PFloat (NaN True (2 ^ 51)))
           = Inr [3, 0, 0, 0, 3, 0, 0, 0, 0x00, 0x00, 0xC0, 0xFF]"
    using layout by (simp add: le_bytes_4 sign_bit_def)
  show ?thesis
    using known range invalid socket bool nan layout
    by (simp add: le_bytes_4 fresh_controls_def)
qed


subsection \<open>Reading the update payload\<close>

text \<open>
  With at least 188 bytes every read of \<open>_parse_update\<close> succeeds, the lap times
  are in range, and the running offset visits the offsets of the specification's
  table: the dict built is \<open>update_layout\<close>, unless \<open>int(rpm)\<close> or
  \<open>int(max_rpm)\<close> raises.
\<close>

lemma unpack_f_at:
  "b \<le> length data \<Longrightarrow> b = off + 4 \<Longrightarrow> unpack_f (py_slice data off b) = Some (f32_at data off)"
  by (simp add: unpack_f_def py_slice_def f32_at_def)

lemma unpack_i_at:
  "b \<le> length data \<Longrightarrow> b = off + 4 \<Longrightarrow> unpack_i (py_slice data off b) = Some (i32_at data off)"
  by (simp add: unpack_i_def py_slice_def i32_at_def Let_def)

lemma read_floats_step:
  "off + 4 \<le> length data \<Longrightarrow>
     read_floats (Suc n) data off =
       (case read_floats n data (off + 4) of
          None \<Rightarrow> None
        | Some (xs, off') \<Rightarrow> Some (f32_at data off # xs, off'))"
  by (simp add: unpack_f_at)

lemma read_floats_4:
  assumes "off + 16 \<le> length data"
  shows "read_floats 4 data off =
     Some ([f32_at data off, f32_at data (off + 4), f32_at data (off + 8), f32_at data (off + 12)],
           off + 16)"
proof -
  have "read_floats (Suc (Suc (Suc (Suc 0)))) data off =
     Some ([f32_at data off, f32_at data (off + 4), f32_at data (off + 8), f32_at data (off + 12)],
           off + 16)"
    using assms by (simp add: read_floats_step add.assoc del: read_floats.simps(2))
  moreover have "(4::nat) = Suc (Suc (Suc (Suc 0)))" by simp
  ultimately show ?thesis by metis
qed

lemma le_nat_bound: "le_nat bs < 256 ^ length bs"
proof (induction bs)
  case Nil
  then show ?case by simp
next
  case (Cons b bs)
  have "unat b < 256" using unsigned_less [of b] by simp
  with Cons show ?case by simp
qed

lemma i32_at_range: "- (2 ^ 31) \<le> i32_at data off \<and> i32_at data off < 2 ^ 31"
proof -
  have "le_nat (take 4 (drop off data)) < 256 ^ length (take 4 (drop off data))"
    by (rule le_nat_bound)
  also have "\<dots> \<le> 256 ^ 4" by (intro power_increasing) auto
  finally show ?thesis by (simp add: i32_at_def Let_def)
qed

lemma mk_double_exact:
  assumes "0 \<le> n" and "n < 2 ^ 53" and "- 1074 \<le> e" and "of_int n * 2 powi e < (2::real) ^ 1024"
  shows "mk_double s (of_int n * 2 powi e) = Finite s (of_int n * 2 powi e)"
proof (cases "n = 0")
  case True
  then show ?thesis by (simp add: mk_double_def round_to_def)
next
  case False
  then have "round_to 53 (- 1074) (of_int n * 2 powi e) = of_int n * 2 powi e"
    using assms by (intro round_to_exact) auto
  then show ?thesis using assms(4) by (simp add: mk_double_def Let_def)
qed

lemma float_of_int_exact:
  assumes "\<bar>i\<bar> < 2 ^ 53"
  shows "float_of_int i = Some (exact_of_int i)"
proof -
  have "real_of_int \<bar>i\<bar> < 2 ^ 53" using assms by (metis of_int_less_numeral_power_cancel_iff)
  also have "\<dots> < (2::real) ^ 1024" by (intro power_strict_increasing) auto
  finally have "real_of_int \<bar>i\<bar> * 2 powi 0 < 2 ^ 1024" by simp
  then have "mk_double (i < 0) (of_int \<bar>i\<bar> * 2 powi 0) = Finite (i < 0) (of_int \<bar>i\<bar> * 2 powi 0)"
    using assms by (intro mk_double_exact) auto
  then show ?thesis by (simp add: float_of_int_def exact_of_int_def)
qed

lemma float_lit_1000: "float_lit 1000 = Finite False 1000"
  using mk_double_exact [of 1000 0 False] by (simp add: float_lit_def)

lemma int_div_float_ms:
  assumes "- (2 ^ 31) \<le> i \<and> i < 2 ^ 31"
  shows "int_div_float i (float_lit 1000) = Some (seconds i)"
proof -
  have "\<bar>i\<bar> < 2 ^ 53" using assms by (simp add: abs_less_iff)
  then show ?thesis
    by (simp add: int_div_float_def float_of_int_exact exact_of_int_def float_lit_1000 seconds_def)
qed

lemma int_div_float_i32:
  "int_div_float (i32_at data off) (float_lit 1000) = Some (seconds (i32_at data off))"
  using i32_at_range by (rule int_div_float_ms)

lemma parse_update_fields_eq:
  assumes "188 \<le> length data"
  shows "parse_update_fields gtotal data =
     (case int_of_float (f32_at data 12) of
        None \<Rightarrow> None
      | Some rpm \<Rightarrow>
          (case int_of_float (f32_at data 16) of
             None \<Rightarrow> None
           | Some max_rpm \<Rightarrow>
               Some (dict_update (update_layout data rpm max_rpm)
                       (calculate_derived_values gtotal (update_layout data rpm max_rpm)))))"
  using assms
  by (simp add: parse_update_fields_def unpack_f_at unpack_i_at read_floats_4
      int_div_float_i32 update_layout_def floats4_at_def Let_def
      split: option.splits)

subsection \<open>The derived values of a decoded update\<close>

lemma map_of_dict_set: "map_of (dict_set d k v) = (map_of d)(k \<mapsto> v)"
  by (induction d) (auto simp add: fun_eq_iff)

lemma map_of_dict_update: "map_of (dict_update d e) = map_of d ++ map_of (rev e)"
proof (induction e arbitrary: d)
  case Nil
  then show ?case by simp
next
  case (Cons a e)
  obtain k v where a: "a = (k, v)" by (cases a)
  have "map_of (dict_update d (a # e)) = map_of (dict_set d k v) ++ map_of (rev e)"
    by (simp add: a Cons)
  also have "\<dots> = (map_of d)(k \<mapsto> v) ++ map_of (rev e)"
    by (simp only: map_of_dict_set)
  also have "\<dots> = map_of d ++ (map_of [(k, v)] ++ map_of (rev e))"
    by (simp add: fun_eq_iff map_add_def split: option.splits)
  finally show ?case by (simp add: a)
qed

lemma dict_get_update:
  "dict_get (dict_update d e) k = (case map_of (rev e) k of None \<Rightarrow> dict_get d k | Some v \<Rightarrow> Some v)"
  by (simp add: dict_get_def map_of_dict_update map_add_def split: option.splits)

lemma for_each_Some:
  "(\<And>x. x \<in> set xs \<Longrightarrow> f x = Some (g x)) \<Longrightarrow> for_each f xs = Some (map g xs)"
  by (induction xs) simp_all

lemma layout_lookups:
  "dict_get_default (update_layout p rpm max_rpm) ''wheel_angular_speed'' d = floats4_at p 92"
  "dict_get_default (update_layout p rpm max_rpm) ''wheel_slip'' d = floats4_at p 108"
  "dict_get_default (update_layout p rpm max_rpm) ''tire_pressure'' d = floats4_at p 140"
  "dict_get_default (update_layout p rpm max_rpm) ''rpm'' d = PInt rpm"
  "dict_get_default (update_layout p rpm max_rpm) ''max_rpm'' d = PInt max_rpm"
  "dict_get_default (update_layout p rpm max_rpm) ''g_force_lateral'' d = PFloat (f32_at p 24)"
  "dict_get_default (update_layout p rpm max_rpm) ''g_force_longitudinal'' d = PFloat (f32_at p 28)"
  by (simp_all add: dict_get_default_def update_layout_def)

lemma upt_4: "[0 ..< 4] = [0, 1, 2, 3::nat]"
  by (simp add: upt_rec)

lemma wheel_lock_layout:
  "\<exists>wheel_lock. for_each (wheel_lock_at (update_layout p rpm max_rpm)) [0 ..< 4] = Some wheel_lock"
proof -
  have "\<exists>b. wheel_lock_at (update_layout p rpm max_rpm) i = Some b" if "i < 4" for i
  proof -
    from that consider "i = 0" | "i = 1" | "i = 2" | "i = 3" by linarith
    then show ?thesis
      by cases
        (auto simp add: wheel_lock_at_def layout_lookups floats4_at_def py_abs_def py_gt_float_def
          py_lt_float_def)
  qed
  then obtain g where "\<And>i. i < 4 \<Longrightarrow> wheel_lock_at (update_layout p rpm max_rpm) i = Some (g i)"
    by metis
  then have "for_each (wheel_lock_at (update_layout p rpm max_rpm)) [0 ..< 4] = Some (map g [0 ..< 4])"
    by (intro for_each_Some) simp
  then show ?thesis by blast
qed

lemma tire_pressure_delta_layout:
  "\<exists>delta. tire_pressure_delta (update_layout p rpm max_rpm) = Some delta"
  by (simp add: tire_pressure_delta_def layout_lookups floats4_at_def py_sub_float_def Let_def)

lemma gear_recommendation_layout:
  assumes "float_of_int max_rpm = Some (exact_of_int max_rpm)"
  shows "gear_recommendation (update_layout p rpm max_rpm) =
     Some (if float_lt (fmul (exact_of_int max_rpm) (float_lit (85 / 100))) (exact_of_int rpm)
             then str ''SHIFT UP''
           else if float_lt (exact_of_int rpm) (fmul (exact_of_int max_rpm) (float_lit (3 / 10)))
             then str ''SHIFT DOWN''
           else str ''OPTIMAL'')"
  using assms
  by (simp add: gear_recommendation_def layout_lookups py_mul_float_def py_gt_float_def
      py_lt_float_def)

lemma result_gear:
  assumes "float_of_int max_rpm = Some (exact_of_int max_rpm)"
  shows "dict_get (dict_update d (calculate_derived_values gtotal (update_layout p rpm max_rpm)))
           ''gear_recommendation''
           = Some (PStr
               (if float_lt (fmul (exact_of_int max_rpm) (float_lit (85 / 100))) (exact_of_int rpm)
                  then str ''SHIFT UP''
                else if float_lt (exact_of_int rpm) (fmul (exact_of_int max_rpm) (float_lit (3 / 10)))
                  then str ''SHIFT DOWN''
                else str ''OPTIMAL''))"
proof -
  obtain wheel_lock delta
    where "for_each (wheel_lock_at (update_layout p rpm max_rpm)) [0 ..< 4] = Some wheel_lock"
      and "tire_pressure_delta (update_layout p rpm max_rpm) = Some delta"
    using wheel_lock_layout tire_pressure_delta_layout by metis
  then show ?thesis
    using gear_recommendation_layout [OF assms, of p rpm]
    by (cases "gtotal (PFloat (f32_at p 24)) (PFloat (f32_at p 28))")
       (simp_all add: calculate_derived_values_def dict_get_def map_of_dict_set layout_lookups)
qed

lemma derived_keys:
  "fst ` set (calculate_derived_values gtotal data)
     \<subseteq> {''wheel_lock'', ''abs_in_action'', ''tire_pressure_delta'', ''gear_recommendation'',
         ''g_force_total''}"
proof (cases "for_each (wheel_lock_at data) [0 ..< 4]")
  case None
  then show ?thesis by (simp add: calculate_derived_values_def)
next
  case wheel_lock: (Some w)
  show ?thesis
  proof (cases "tire_pressure_delta data")
    case None
    with wheel_lock show ?thesis by (simp add: calculate_derived_values_def)
  next
    case delta: (Some d)
    show ?thesis
    proof (cases "gear_recommendation data")
      case None
      with wheel_lock delta show ?thesis by (simp add: calculate_derived_values_def)
    next
      case gear: (Some r)
      show ?thesis
        using wheel_lock delta gear
        by (cases "gtotal (dict_get_default data ''g_force_lateral'' (PInt 0))
                     (dict_get_default data ''g_force_longitudinal'' (PInt 0))")
           (simp_all add: calculate_derived_values_def)
    qed
  qed
qed

lemma derived_misses:
  assumes "k \<notin> {''wheel_lock'', ''abs_in_action'', ''tire_pressure_delta'', ''gear_recommendation'',
         ''g_force_total''}"
  shows "dict_get (dict_update d (calculate_derived_values gtotal data)) k = dict_get d k"
proof -
  have "k \<notin> fst ` set (rev (calculate_derived_values gtotal data))"
    using assms derived_keys [of gtotal data] by auto
  then have "map_of (rev (calculate_derived_values gtotal data)) k = None"
    by (simp add: map_of_eq_None_iff)
  then show ?thesis by (simp add: dict_get_update)
qed

text \<open>
  The integer that \<open>int\<close> makes of a binary32 value is 0 or has at most 24 significant
  bits: its magnitude is \<open>a * 2^k\<close> with \<open>a < 2^24\<close>.
\<close>

lemma f32_int_shape:
  assumes "int_of_float (f32_value n) = Some m"
  shows "m = 0 \<or> (\<exists>a k. 1 \<le> a \<and> a < 2 ^ 24 \<and> k \<le> 104 \<and> \<bar>m\<bar> = a * 2 ^ k)"
proof -
  define s where "s = (n div 2 ^ 31 mod 2 = 1)"
  define E where "E = n div 2 ^ 23 mod 256"
  define F where "F = n mod 2 ^ 23"
  have F: "F < 2 ^ 23" by (simp add: F_def)
  have E: "E < 256" by (simp add: E_def)
  have v: "f32_value n =
     (if E = 255 then (if F = 0 then Infinity s else NaN s ((2 ^ 22 + F mod 2 ^ 22) * 2 ^ 29))
      else if E = 0 then Finite s (real F * 2 powi (- 149))
      else Finite s (real (2 ^ 23 + F) * 2 powi (int E - 150)))"
    by (simp add: f32_value_def Let_def s_def E_def F_def)
  have finite: "E \<noteq> 255" using assms v by (auto split: if_splits)
  show ?thesis
  proof (cases "E < 150")
    case True
    define x where "x = (if E = 0 then real F * 2 powi (- 149)
                         else real (2 ^ 23 + F) * 2 powi (int E - 150))"
    have fx: "f32_value n = Finite s x" using v finite by (simp add: x_def)
    have "(2::real) powi (int E - 150) \<le> 2 powi 0"
      using True by (intro power_int_increasing) auto
    then have p: "(2::real) powi (int E - 150) \<le> 1" by simp
    have p0: "0 < (2::real) powi (int E - 150)" by (simp add: zero_less_power_int)
    have "(2::real) powi (- 149) \<le> 2 powi 0"
      by (intro power_int_increasing) auto
    then have q: "(2::real) powi (- 149) \<le> 1" by simp
    have q0: "0 < (2::real) powi (- 149)" by (simp add: zero_less_power_int)
    have x0: "0 \<le> x" using p0 q0 by (simp add: x_def)
    have "x < 2 ^ 24"
    proof (cases "E = 0")
      case True
      have "real F * 2 powi (- 149) \<le> real F * 1"
        using q by (intro mult_left_mono) auto
      moreover have "real F < 2 ^ 23" using F by (metis of_nat_less_numeral_power_cancel_iff)
      moreover have "x = real F * 2 powi (- 149)"
        using True by (simp only: x_def refl if_True)
      ultimately have "x \<le> real F" "real F < 2 ^ 23" by simp_all
      moreover have "(2::real) ^ 23 < 2 ^ 24" by simp
      ultimately show ?thesis by linarith
    next
      case False
      have "real (2 ^ 23 + F) * 2 powi (int E - 150) \<le> real (2 ^ 23 + F) * 1"
        using p by (intro mult_left_mono) auto
      moreover have "real (2 ^ 23 + F) < 2 ^ 24" using F by simp
      moreover have "x = real (2 ^ 23 + F) * 2 powi (int E - 150)"
        using False by (simp add: x_def)
      ultimately have "x \<le> real (2 ^ 23 + F)" "real (2 ^ 23 + F) < 2 ^ 24" by simp_all
      then show ?thesis by linarith
    qed
    then have "\<lfloor>x\<rfloor> < 2 ^ 24" by (simp add: floor_less_iff)
    moreover have "0 \<le> \<lfloor>x\<rfloor>" using x0 by simp
    moreover have "m = (if s then - \<lfloor>x\<rfloor> else \<lfloor>x\<rfloor>)" using assms fx by simp
    ultimately have small: "\<bar>m\<bar> < 2 ^ 24" by (simp split: if_splits)
    show ?thesis
    proof (cases "m = 0")
      case True
      then show ?thesis by simp
    next
      case False
      then have "1 \<le> \<bar>m\<bar> \<and> \<bar>m\<bar> < 2 ^ 24 \<and> (0::nat) \<le> 104 \<and> \<bar>m\<bar> = \<bar>m\<bar> * 2 ^ (0::nat)"
        using small by simp
      then show ?thesis by blast
    qed
  next
    case False
    define k where "k = E - 150"
    define N where "N = int (2 ^ 23 + F)"
    have ek: "int E - 150 = int k" using False by (simp add: k_def)
    have k: "k \<le> 104" using E finite by (simp add: k_def)
    have fx: "f32_value n = Finite s (of_int N * 2 powi int k)"
      using v finite False by (simp add: ek N_def)
    have N: "0 < N" "N < 2 ^ 24" using F by (simp_all add: N_def)
    have "real_of_int N * 2 ^ k = of_int (N * 2 ^ k)" by simp
    then have "\<lfloor>real_of_int N * 2 ^ k\<rfloor> = N * 2 ^ k" by (simp only: floor_of_int)
    then have m: "m = (if s then - (N * 2 ^ k) else N * 2 ^ k)"
      using assms fx by (auto simp add: power_int_of_nat)
    have "\<bar>m\<bar> = N * 2 ^ k" using N by (simp add: m abs_mult)
    then have "1 \<le> N \<and> N < 2 ^ 24 \<and> k \<le> 104 \<and> \<bar>m\<bar> = N * 2 ^ k"
      using N k by simp
    then show ?thesis by blast
  qed
qed

lemma int_of_f32_exact:
  assumes "int_of_float (f32_value n) = Some m"
  shows "float_of_int m = Some (exact_of_int m)"
proof -
  from f32_int_shape [OF assms] consider "m = 0"
    | a k where "1 \<le> a" "a < 2 ^ 24" "k \<le> 104" "\<bar>m\<bar> = a * 2 ^ k"
    by blast
  then show ?thesis
  proof cases
    case 1
    then show ?thesis by (intro float_of_int_exact) simp
  next
    case (2 a k)
    have abs: "\<bar>real_of_int m\<bar> = real_of_int a * 2 powi int k"
      using 2(4) by (metis of_int_abs of_int_mult of_int_numeral of_int_power power_int_of_nat)
    have "real_of_int a * 2 powi int k < 2 ^ 24 * 2 ^ 104"
    proof -
      have "real_of_int a < 2 ^ 24" using 2(2) by (metis of_int_less_numeral_power_cancel_iff)
      moreover have "(2::real) ^ k \<le> 2 ^ 104" using 2(3) by (intro power_increasing) auto
      moreover have "0 < real_of_int a" using 2(1) by simp
      ultimately show ?thesis
        unfolding power_int_of_nat by (intro mult_less_le_imp_less) auto
    qed
    also have "\<dots> < (2::real) ^ 1024"
      unfolding power_add [symmetric] by (intro power_strict_increasing) auto
    finally have "mk_double (m < 0) (of_int a * 2 powi int k) = Finite (m < 0) (of_int a * 2 powi int k)"
      using 2 by (intro mk_double_exact) auto
    then show ?thesis
      by (simp add: float_of_int_def exact_of_int_def abs)
  qed
qed

lemmas float_eval = float_lit_def mk_double_def round_to_def ilog2_def round_even_def compute_bitlen Let_def

lemma float_lit_085: "float_lit (85 / 100) = Finite False (7656119366529843 / 9007199254740992)"
  by (simp add: float_eval)

lemma float_lit_03: "float_lit (3 / 10) = Finite False (5404319552844595 / 18014398509481984)"
  by (simp add: float_eval)

lemma zero_thresholds:
  "fmul (Finite False 0) (float_lit (85 / 100)) = Finite False 0"
  "fmul (Finite False 0) (float_lit (3 / 10)) = Finite False 0"
  unfolding float_lit_085 float_lit_03 by (simp_all add: mk_double_def round_to_def)

lemma mk_double_0: "mk_double s 0 = Finite s 0"
  by (simp add: mk_double_def round_to_def)

lemma parse_update_ok:
  assumes "328 \<le> length payload"
    and "int_of_float (f32_at payload 12) = Some rpm"
    and "int_of_float (f32_at payload 16) = Some max_rpm"
  shows "parse gtotal pc (le_bytes 4 (udp_type_value UPDATE) @ payload)
           = (Some (dict_update (update_layout payload rpm max_rpm)
                      (calculate_derived_values gtotal (update_layout payload rpm max_rpm))),
              pc + 1)"
  using assms by (simp add: parse_tagged parse_update_def parse_update_fields_eq)

lemma parse_update_raises:
  assumes "328 \<le> length payload"
    and "int_of_float (f32_at payload 12) = None \<or> int_of_float (f32_at payload 16) = None"
  shows "parse gtotal pc (le_bytes 4 (udp_type_value UPDATE) @ payload) = (Some [], pc)"
  using assms
  by (auto simp add: parse_tagged parse_update_def parse_update_fields_eq split: option.splits)


lemma sample_length: "length sample_payload = 328"
  by (simp add: sample_payload_def)

lemma sample_fields:
  "f32_at sample_payload 0 = Finite False 120"
  "f32_at sample_payload 12 = Finite False 7200"
  "f32_at sample_payload 16 = Finite False 8000"
  "f32_at sample_payload 108 = Finite False 0"
  "f32_at sample_payload 112 = Finite False 0"
  "f32_at sample_payload 116 = Finite False 0"
  "f32_at sample_payload 120 = Finite False 0"
  "f32_at sample_payload 140 = Finite False (15938355 / 8388608)"
  "f32_at sample_payload 144 = Finite False (15938355 / 8388608)"
  "f32_at sample_payload 148 = Finite False (15938355 / 8388608)"
  "f32_at sample_payload 152 = Finite False (15938355 / 8388608)"
  by (simp_all add: f32_at_def sample_payload_def f32_value_def)

lemma sample_speed_mph:
  "fmul (Finite False 120) (float_lit (621371 / 1000000))
     = Finite False (5247011632610311 / 70368744177664)"
  by (simp add: float_eval)

text \<open>
  C9 as the code has it. For an Update payload of at least 328 bytes whose \<open>rpm\<close>
  and \<open>max_rpm\<close> (the floats at offsets 12 and 16) are finite, so that \<open>int(rpm)\<close>
  and \<open>int(max_rpm)\<close> do not raise, the update is decoded and counted,
  \<open>speed_kmh\<close> is the float at offset 0, \<open>speed_mph\<close> is the binary64 product
  of it with \<open>0.621371\<close>, and the six arrays hold the four consecutive floats at
  offsets 92, 108, 124, 140, 156 and 172, in the order of the payload.
\<close>

theorem update_decoded_by_offsets:
  assumes "328 \<le> length payload"
    and "int_of_float (f32_at payload 12) \<noteq> None"
    and "int_of_float (f32_at payload 16) \<noteq> None"
  shows "\<exists>result.
          parse gtotal pc (le_bytes 4 (udp_type_value UPDATE) @ payload) = (Some result, pc + 1)
        \<and> dict_get result ''speed_kmh'' = Some (PFloat (f32_at payload 0))
        \<and> dict_get result ''speed_mph''
             = Some (PFloat (fmul (f32_at payload 0) (float_lit (621371 / 1000000))))
        \<and> dict_get result ''wheel_angular_speed'' = Some (floats4_at payload 92)
        \<and> dict_get result ''wheel_slip'' = Some (floats4_at payload 108)
        \<and> dict_get result ''wheel_load'' = Some (floats4_at payload 124)
        \<and> dict_get result ''tire_pressure'' = Some (floats4_at payload 140)
        \<and> dict_get result ''tire_temperature_core'' = Some (floats4_at payload 156)
        \<and> dict_get result ''suspension_travel'' = Some (floats4_at payload 172)"
proof -
  from assms(2,3) obtain rpm max_rpm
    where "int_of_float (f32_at payload 12) = Some rpm"
      and "int_of_float (f32_at payload 16) = Some max_rpm"
    by auto
  then have "parse gtotal pc (le_bytes 4 (udp_type_value UPDATE) @ payload)
           = (Some (dict_update (update_layout payload rpm max_rpm)
                      (calculate_derived_values gtotal (update_layout payload rpm max_rpm))),
              pc + 1)"
    using assms(1) by (intro parse_update_ok)
  moreover have "dict_get (update_layout payload rpm max_rpm) ''speed_kmh'' = Some (PFloat (f32_at payload 0))"
    "dict_get (update_layout payload rpm max_rpm) ''speed_mph''
       = Some (PFloat (fmul (f32_at payload 0) (float_lit (621371 / 1000000))))"
    "dict_get (update_layout payload rpm max_rpm) ''wheel_angular_speed'' = Some (floats4_at payload 92)"
    "dict_get (update_layout payload rpm max_rpm) ''wheel_slip'' = Some (floats4_at payload 108)"
    "dict_get (update_layout payload rpm max_rpm) ''wheel_load'' = Some (floats4_at payload 124)"
    "dict_get (update_layout payload rpm max_rpm) ''tire_pressure'' = Some (floats4_at payload 140)"
    "dict_get (update_layout payload rpm max_rpm) ''tire_temperature_core'' = Some (floats4_at payload 156)"
    "dict_get (update_layout payload rpm max_rpm) ''suspension_travel'' = Some (floats4_at payload 172)"
    by (simp_all add: dict_get_def update_layout_def)
  ultimately show ?thesis
    by (simp add: derived_misses)
qed

theorem update_decoded_by_offsets_witness:
  "328 \<le> length sample_payload
     \<and> int_of_float (f32_at sample_payload 12) \<noteq> None
     \<and> int_of_float (f32_at sample_payload 16) \<noteq> None
     \<and> (\<exists>result.
          parse gforce_raises 0 (le_bytes 4 (udp_type_value UPDATE) @ sample_payload) = (Some result, 1)
        \<and> dict_get result ''speed_kmh'' = Some (PFloat (Finite False 120))
        \<and> dict_get result ''speed_mph''
             = Some (PFloat (Finite False (5247011632610311 / 70368744177664)))
        \<and> dict_get result ''wheel_slip''
             = Some (PList [PFloat (Finite False 0), PFloat (Finite False 0),
                            PFloat (Finite False 0), PFloat (Finite False 0)])
        \<and> dict_get result ''tire_pressure''
             = Some (PList [PFloat (Finite False (15938355 / 8388608)),
                            PFloat (Finite False (15938355 / 8388608)),
                            PFloat (Finite False (15938355 / 8388608)),
                            PFloat (Finite False (15938355 / 8388608))]))"
proof -
  have size: "328 \<le> length sample_payload" by (simp add: sample_length)
  have rpm: "int_of_float (f32_at sample_payload 12) \<noteq> None"
    and max_rpm: "int_of_float (f32_at sample_payload 16) \<noteq> None"
    by (simp_all add: sample_fields)
  from update_decoded_by_offsets [OF size rpm max_rpm, of gforce_raises 0]
  obtain result
    where "parse gforce_raises 0 (le_bytes 4 (udp_type_value UPDATE) @ sample_payload)
             = (Some result, 1)"
      and "dict_get result ''speed_kmh'' = Some (PFloat (Finite False 120))"
      and "dict_get result ''speed_mph''
             = Some (PFloat (Finite False (5247011632610311 / 70368744177664)))"
      and "dict_get result ''wheel_slip''
             = Some (PList [PFloat (Finite False 0), PFloat (Finite False 0),
                            PFloat (Finite False 0), PFloat (Finite False 0)])"
      and "dict_get result ''tire_pressure''
             = Some (PList [PFloat (Finite False (15938355 / 8388608)),
                            PFloat (Finite False (15938355 / 8388608)),
                            PFloat (Finite False (15938355 / 8388608)),
                            PFloat (Finite False (15938355 / 8388608))])"
    by (auto simp add: sample_fields sample_speed_mph floats4_at_def)
  then show ?thesis
    using size rpm max_rpm by blast
qed

text \<open>
  C9 as the specification states it fails on a payload of 328 bytes whose \<open>rpm\<close> is
  a NaN: \<open>int(rpm)\<close> raises, the handler returns the empty dict, and the result has
  no \<open>speed_mph\<close>.
\<close>

theorem update_decoded_by_offsets_counterexample:
  "328 \<le> length (replicate 12 (0 :: byte) @ [0, 0, 0xC0, 0x7F] @ replicate 312 0)
     \<and> parse gforce_raises 0 ([1, 0, 0, 0] @ replicate 12 0 @ [0, 0, 0xC0, 0x7F] @ replicate 312 0)
          = (Some [], 0)
     \<and> dict_get [] ''speed_mph'' = None"
proof -
  have "int_of_float (f32_at nan_payload 12) = None"
    by (simp add: f32_at_def nan_payload_def f32_value_def)
  then have "parse gforce_raises 0 (le_bytes 4 (udp_type_value UPDATE) @ nan_payload) = (Some [], 0)"
    by (intro parse_update_raises) (simp_all add: nan_payload_def)
  then show ?thesis
    by (simp add: le_bytes_4 nan_payload_def dict_get_def)
qed

lemma le_bytes_le_nat: "length bs = n \<Longrightarrow> le_bytes n (le_nat bs) = bs"
proof (induction bs arbitrary: n)
  case Nil
  then show ?case by simp
next
  case (Cons b bs)
  have b: "unat b < 256" using unsigned_less [of b] by simp
  then have "(unat b + 256 * le_nat bs) mod 256 = unat b"
    and "(unat b + 256 * le_nat bs) div 256 = le_nat bs"
    by simp_all
  then show ?case using Cons by auto
qed

lemma datagram_split:
  assumes "4 \<le> length data"
  shows "data = le_bytes 4 (le_nat (take 4 data)) @ drop 4 data" and "le_nat (take 4 data) < 2 ^ 32"
proof -
  have "length (take 4 data) = 4" using assms by simp
  then have "le_bytes 4 (le_nat (take 4 data)) = take 4 data" by (rule le_bytes_le_nat)
  then show "data = le_bytes 4 (le_nat (take 4 data)) @ drop 4 data" by simp
  have "le_nat (take 4 data) < 256 ^ length (take 4 data)" by (rule le_nat_bound)
  then show "le_nat (take 4 data) < 2 ^ 32" using assms by simp
qed

subsection \<open>The thresholds in exact arithmetic\<close>

text \<open>
  The thresholds \<open>max_rpm * 0.85\<close> and \<open>max_rpm * 0.3\<close> are binary64 products, each
  within a relative error of \<open>11 / 2^56\<close> of the exact product with 17/20 and 3/10.
  Both \<open>rpm\<close> and \<open>max_rpm\<close> have at most 24 significant bits, so an exact product
  that differs from \<open>rpm\<close> differs from it by much more than that error, and one that
  equals \<open>rpm\<close> is rounded to it: the comparisons of the source decide exactly what
  the comparisons with the rational thresholds decide.
\<close>

lemma ilog2_upper:
  assumes "0 < x"
  shows "x < 2 powi (ilog2 x + 1)"
proof -
  define k where "k = \<lfloor>log 2 x\<rfloor>"
  have "2 powr real_of_int k \<le> x \<and> x < 2 powr real_of_int (k + 1)"
    using floor_log_eq_powr_iff [of x 2 k] assms by (simp only: k_def) simp
  then have "x < 2 powi (k + 1)"
    using powr_real_of_int' [of 2 "k + 1"] by simp
  then show ?thesis using assms by (simp add: ilog2_floor_log k_def)
qed

lemma ilog2_ge:
  assumes "2 powi m \<le> x"
  shows "m \<le> ilog2 x"
proof (rule ccontr)
  assume "\<not> m \<le> ilog2 x"
  then have "ilog2 x + 1 \<le> m" by simp
  then have "(2::real) powi (ilog2 x + 1) \<le> 2 powi m"
    by (intro power_int_increasing) auto
  moreover have "0 < x" using assms zero_less_power_int [of "2::real" m] by linarith
  ultimately show False using ilog2_upper [of x] assms by linarith
qed

lemma round_even_error: "\<bar>real_of_int (round_even y) - y\<bar> \<le> 1 / 2"
proof -
  have "real_of_int \<lfloor>y\<rfloor> \<le> y" and "y < real_of_int \<lfloor>y\<rfloor> + 1"
    by linarith+
  then show ?thesis
    by (auto simp add: round_even_def Let_def)
qed

lemma round_double_error:
  assumes "2 powi (- 1022) \<le> x"
  shows "\<exists>N. round_to 53 (- 1074) x = real_of_int N * 2 powi (ilog2 x - 52)
           \<and> \<bar>round_to 53 (- 1074) x - x\<bar> \<le> 2 powi (ilog2 x - 53)"
proof -
  define E where "E = ilog2 x"
  define N where "N = round_even (x / 2 powi (E - 52))"
  have pos: "0 < x" using assms zero_less_power_int [of "2::real" "- 1022"] by linarith
  have "- 1022 \<le> E" unfolding E_def using assms by (rule ilog2_ge)
  then have q: "max (E - int 53 + 1) (- 1074) = E - 52" by simp
  have r: "round_to 53 (- 1074) x = real_of_int N * 2 powi (E - 52)"
    using pos q by (simp add: round_to_def Let_def N_def flip: E_def)
  have p: "0 < (2::real) powi (E - 52)" by (simp add: zero_less_power_int)
  have "\<bar>real_of_int N - x / 2 powi (E - 52)\<bar> \<le> 1 / 2"
    unfolding N_def by (rule round_even_error)
  then have "\<bar>real_of_int N - x / 2 powi (E - 52)\<bar> * 2 powi (E - 52) \<le> 1 / 2 * 2 powi (E - 52)"
    using p by (intro mult_right_mono) auto
  moreover have "\<bar>real_of_int N - x / 2 powi (E - 52)\<bar> * 2 powi (E - 52)
      = \<bar>real_of_int N * 2 powi (E - 52) - x\<bar>"
  proof -
    have "\<bar>real_of_int N - x / 2 powi (E - 52)\<bar> * 2 powi (E - 52)
        = \<bar>(real_of_int N - x / 2 powi (E - 52)) * 2 powi (E - 52)\<bar>"
      using p by (simp add: abs_mult)
    also have "(real_of_int N - x / 2 powi (E - 52)) * 2 powi (E - 52)
        = real_of_int N * 2 powi (E - 52) - x"
      using p by (simp add: field_simps)
    finally show ?thesis .
  qed
  moreover have "1 / 2 * (2::real) powi (E - 52) = 2 powi (E - 53)"
    using power_int_add [of "2::real" "- 1" "E - 52"] by (simp add: power_int_minus_divide)
  ultimately have "\<bar>round_to 53 (- 1074) x - x\<bar> \<le> 2 powi (E - 53)"
    using r by simp
  then show ?thesis using r unfolding E_def by blast
qed

lemma threshold_sign:
  fixes a b u v :: int and k l d :: nat and cf :: real
  assumes a: "1 \<le> a" "a < 2 ^ 24" and b: "1 \<le> b" "b < 2 ^ 24"
    and u: "0 < u" and v: "0 < v"
    and cf1: "1 / 4 \<le> cf"
    and cf2: "cf \<le> of_int u / of_int v"
    and cf3: "of_int u / of_int v - cf \<le> 3 * (of_int u / of_int v) / 2 ^ 56"
    and P1: "3 * u * 2 ^ d \<le> 2 ^ 30"
    and P2: "6 * v * 2 ^ 23 \<le> 5 * u * 2 ^ d"
  defines "M \<equiv> a * 2 ^ k" and "R \<equiv> b * 2 ^ l"
  defines "T \<equiv> round_to 53 (- 1074) (of_int M * cf)"
  shows "(T < of_int R \<longleftrightarrow> u * M < v * R) \<and> (of_int R < T \<longleftrightarrow> v * R < u * M)
       \<and> 0 < T \<and> T \<le> 2 * (of_int u / of_int v * of_int M)"
proof -
  define t where "t = real_of_int u / real_of_int v"
  define Mr where "Mr = real_of_int M"
  define Rr where "Rr = real_of_int R"
  define x where "x = Mr * cf"
  define E where "E = ilog2 x"
  have t: "0 < t" using u v by (simp add: t_def)
  have "1 \<le> M"
  proof -
    have "1 * 1 \<le> a * 2 ^ k" using a(1) by (intro mult_mono) auto
    then show ?thesis by (simp add: M_def)
  qed
  then have Mr: "1 \<le> Mr" by (simp add: Mr_def)
  have "1 / 4 * 1 \<le> cf * Mr" using cf1 Mr by (intro mult_mono) auto
  then have x4: "1 / 4 \<le> x" by (simp add: x_def mult.commute)
  then have pos: "0 < x" by linarith
  have "(2::real) powi (- 1022) \<le> 2 powi (- 2)"
    by (intro power_int_increasing) auto
  also have "\<dots> = 1 / 4" by (simp add: power_int_minus_divide)
  finally have "2 powi (- 1022) \<le> x" using x4 by linarith
  from round_double_error [OF this] obtain N
    where TN: "T = real_of_int N * 2 powi (E - 52)"
      and err: "\<bar>T - x\<bar> \<le> 2 powi (E - 53)"
    unfolding T_def x_def Mr_def E_def by blast
  have lower: "2 powi E \<le> x" unfolding E_def using pos by (rule ilog2_lower)
  have upper: "x < 2 powi (E + 1)" unfolding E_def using pos by (rule ilog2_upper)
  have half: "(2::real) powi (E - 53) = 2 powi E / 2 ^ 53"
    using power_int_diff [of "2::real" E 53] by simp
  then have err': "\<bar>T - x\<bar> \<le> x / 2 ^ 53"
    using err lower by (simp add: divide_right_mono order_trans)
  have "Mr * cf \<le> Mr * t"
    using cf2 Mr unfolding t_def by (intro mult_left_mono) auto
  then have xt: "x \<le> t * Mr" by (simp add: x_def mult.commute)
  have "t * Mr - x = Mr * (t - cf)" by (simp add: x_def algebra_simps)
  also have "\<dots> \<le> Mr * (3 * t / 2 ^ 56)"
    using cf3 Mr unfolding t_def by (intro mult_left_mono) auto
  finally have tx: "t * Mr - x \<le> 3 * (t * Mr) / 2 ^ 56" by (simp add: algebra_simps)
  have A: "\<bar>T - t * Mr\<bar> \<le> 11 * (t * Mr) / 2 ^ 56"
  proof -
    have "\<bar>T - t * Mr\<bar> \<le> \<bar>T - x\<bar> + (t * Mr - x)" using xt by linarith
    also have "\<dots> \<le> x / 2 ^ 53 + 3 * (t * Mr) / 2 ^ 56" using err' tx by linarith
    also have "\<dots> \<le> t * Mr / 2 ^ 53 + 3 * (t * Mr) / 2 ^ 56"
      using xt by (simp add: mult.commute)
    also have "\<dots> = 11 * (t * Mr) / 2 ^ 56" by simp
    finally show ?thesis .
  qed
  have tM: "0 < t * Mr" using t Mr by simp
  have cmp1: "t * Mr < Rr \<longleftrightarrow> u * M < v * R"
  proof -
    have "t * Mr < Rr \<longleftrightarrow> real_of_int u * Mr < real_of_int v * Rr"
      using v by (simp add: t_def field_simps)
    also have "\<dots> \<longleftrightarrow> real_of_int (u * M) < real_of_int (v * R)"
      by (simp add: Mr_def Rr_def)
    also have "\<dots> \<longleftrightarrow> u * M < v * R" by (rule of_int_less_iff)
    finally show ?thesis .
  qed
  have cmp2: "Rr < t * Mr \<longleftrightarrow> v * R < u * M"
  proof -
    have "Rr < t * Mr \<longleftrightarrow> real_of_int v * Rr < real_of_int u * Mr"
      using v by (simp add: t_def field_simps)
    also have "\<dots> \<longleftrightarrow> real_of_int (v * R) < real_of_int (u * M)"
      by (simp add: Mr_def Rr_def)
    also have "\<dots> \<longleftrightarrow> v * R < u * M" by (rule of_int_less_iff)
    finally show ?thesis .
  qed
  have main: "(T < of_int R \<longleftrightarrow> u * M < v * R) \<and> (of_int R < T \<longleftrightarrow> v * R < u * M)"
  proof (cases "v * R = u * M")
    case True
    have "real_of_int v * Rr = real_of_int u * Mr"
      using True unfolding Mr_def Rr_def by (metis of_int_mult)
    then have RtM: "Rr = t * Mr" using v by (simp add: t_def field_simps)
    have Rpos: "0 < Rr" using RtM tM by simp
    have xR: "x \<le> Rr" using xt RtM by simp
    have Rx: "Rr - x \<le> 3 * Rr / 2 ^ 56" using tx RtM by simp
    have "Rr * (1 - 3 / 2 ^ 56) \<le> x" using Rx by (simp add: algebra_simps)
    moreover have "Rr * (3 / 4) \<le> Rr * (1 - 3 / 2 ^ 56)"
      using Rpos by (intro mult_left_mono) auto
    ultimately have "Rr * (3 / 4) < 2 powi (E + 1)" using upper by linarith
    then have "3 * Rr < 4 * 2 powi (E + 1)" by simp
    moreover have four: "4 * (2::real) powi (E + 1) / 2 ^ 56 = 2 powi (E - 53)"
      using power_int_add [of "2::real" "E - 53" 54] by (simp add: add.commute)
    ultimately have "3 * Rr / 2 ^ 56 < 4 * 2 powi (E + 1) / 2 ^ 56"
      by (intro divide_strict_right_mono) auto
    then have gap: "3 * Rr / 2 ^ 56 < 2 powi (E - 53)"
      by (simp only: four)
    have "Rr < 2 ^ 24 * 2 ^ l"
    proof -
      have "real_of_int b < 2 ^ 24" using b(2) by (metis of_int_less_numeral_power_cancel_iff)
      then show ?thesis unfolding Rr_def R_def by simp
    qed
    also have "\<dots> = 2 powi (int l + 24)"
      by (simp add: power_int_add power_int_of_nat mult.commute)
    finally have "x < 2 powi (int l + 24)" using xR by linarith
    then have El: "E < int l + 24" unfolding E_def using pos by (intro ilog2_less)
    define j where "j = nat (int l - (E - 52))"
    have j: "int l = (E - 52) + int j" using El by (simp add: j_def)
    have "(2::real) ^ l = 2 powi (int l)" by (simp add: power_int_of_nat)
    also have "\<dots> = 2 powi (E - 52) * 2 ^ j"
      unfolding j by (simp add: power_int_add power_int_of_nat)
    finally have RN: "Rr = real_of_int (b * 2 ^ j) * 2 powi (E - 52)"
      unfolding Rr_def R_def by simp
    have "\<bar>T - Rr\<bar> \<le> \<bar>T - x\<bar> + (Rr - x)" using xR by linarith
    also have "\<dots> < 2 powi (E - 53) + 2 powi (E - 53)" using err Rx gap by linarith
    also have "\<dots> = 2 powi (E - 52)"
      using power_int_add [of "2::real" "E - 53" 1] by simp
    finally have close: "\<bar>T - Rr\<bar> < 2 powi (E - 52)" .
    have p: "0 < (2::real) powi (E - 52)" by (simp add: zero_less_power_int)
    have "\<bar>T - Rr\<bar> = \<bar>real_of_int (N - b * 2 ^ j)\<bar> * 2 powi (E - 52)"
      using p unfolding TN RN by (simp add: abs_mult flip: left_diff_distrib)
    with close have "\<bar>real_of_int (N - b * 2 ^ j)\<bar> * 2 powi (E - 52) < 1 * 2 powi (E - 52)"
      by simp
    then have "\<bar>real_of_int (N - b * 2 ^ j)\<bar> < 1"
      using p by (simp only: mult_less_cancel_right_pos)
    then have "\<bar>N - b * 2 ^ j\<bar> < 1" by linarith
    then have "N = b * 2 ^ j" by simp
    then have "T = Rr" by (simp only: TN RN)
    then show ?thesis using True by (simp add: Rr_def)
  next
    case False
    have far: "11 * (t * Mr) / 2 ^ 56 < \<bar>Rr - t * Mr\<bar>"
    proof (cases "k \<le> l + d")
      case True
      have "(2::int) ^ (k - d) dvd M"
        unfolding M_def by (intro dvd_mult le_imp_power_dvd) simp
      moreover have "(2::int) ^ (k - d) dvd R"
        unfolding R_def using True by (intro dvd_mult le_imp_power_dvd) simp
      ultimately have "(2::int) ^ (k - d) dvd v * R - u * M" by simp
      moreover have "v * R - u * M \<noteq> 0" using False by simp
      ultimately have "2 ^ (k - d) \<le> \<bar>v * R - u * M\<bar>"
        using dvd_imp_le_int [of "v * R - u * M" "2 ^ (k - d)"] by simp
      then have "real_of_int (2 ^ (k - d)) \<le> real_of_int \<bar>v * R - u * M\<bar>"
        by (simp only: of_int_le_iff)
      then have big: "2 ^ (k - d) \<le> \<bar>real_of_int v * Rr - real_of_int u * Mr\<bar>"
        by (simp add: Mr_def Rr_def)
      have "Mr < 2 ^ 24 * 2 ^ k"
      proof -
        have "real_of_int a < 2 ^ 24" using a(2) by (metis of_int_less_numeral_power_cancel_iff)
        then show ?thesis unfolding Mr_def M_def by simp
      qed
      then have "11 * real_of_int u * Mr < 11 * real_of_int u * (2 ^ 24 * 2 ^ k)"
        using u by simp
      moreover have "11 * real_of_int u * (2 ^ 24 * 2 ^ k) \<le> 2 ^ 56 * 2 ^ (k - d)"
      proof -
        have "11 * u * 2 ^ d \<le> 4 * (3 * u * 2 ^ d)" using u by simp
        also have "\<dots> \<le> 4 * 2 ^ 30" using P1 by simp
        finally have "11 * u * 2 ^ d \<le> 2 ^ 32" by simp
        then have "real_of_int (11 * u * 2 ^ d) \<le> real_of_int (2 ^ 32)"
          by (simp only: of_int_le_iff)
        then have ud: "11 * real_of_int u * 2 ^ d \<le> 2 ^ 32" by simp
        have kd: "(2::real) ^ k \<le> 2 ^ d * 2 ^ (k - d)"
          unfolding power_add [symmetric] by (intro power_increasing) auto
        have "11 * real_of_int u * (2 ^ 24 * 2 ^ k) \<le> 11 * real_of_int u * (2 ^ 24 * (2 ^ d * 2 ^ (k - d)))"
          using u kd by (intro mult_left_mono) auto
        also have "\<dots> = (11 * real_of_int u * 2 ^ d) * (2 ^ 24 * 2 ^ (k - d))" by simp
        also have "\<dots> \<le> 2 ^ 32 * (2 ^ 24 * 2 ^ (k - d))"
          using ud by (intro mult_right_mono) auto
        also have "\<dots> = 2 ^ 56 * 2 ^ (k - d)" by simp
        finally show ?thesis .
      qed
      ultimately have lt: "11 * (real_of_int u * Mr) < 2 ^ 56 * 2 ^ (k - d)" by linarith
      define D where "D = \<bar>Rr - t * Mr\<bar>"
      have uvt: "real_of_int u = real_of_int v * t" using v by (simp add: t_def)
      have "real_of_int v * Rr - real_of_int u * Mr = real_of_int v * (Rr - t * Mr)"
        unfolding uvt by (simp add: algebra_simps)
      then have "\<bar>real_of_int v * Rr - real_of_int u * Mr\<bar> = \<bar>real_of_int v\<bar> * D"
        unfolding D_def by (simp only: abs_mult)
      then have vD: "\<bar>real_of_int v * Rr - real_of_int u * Mr\<bar> = real_of_int v * D"
        using v by simp
      have "(2::real) ^ 56 * 2 ^ (k - d) \<le> 2 ^ 56 * (real_of_int v * D)"
        using big unfolding vD by (intro mult_left_mono) auto
      with lt have L: "11 * (real_of_int u * Mr) < 2 ^ 56 * (real_of_int v * D)"
        by (rule less_le_trans)
      have e1: "real_of_int v * (11 * (t * Mr)) = 11 * (real_of_int u * Mr)"
        unfolding uvt by simp
      have e2: "real_of_int v * (2 ^ 56 * D) = 2 ^ 56 * (real_of_int v * D)"
        by simp
      have "real_of_int v * (11 * (t * Mr)) < real_of_int v * (2 ^ 56 * D)"
        unfolding e1 e2 by (rule L)
      then have "11 * (t * Mr) < 2 ^ 56 * D"
        using v by (simp only: mult_less_cancel_left_pos of_int_0_less_iff)
      then have "11 * (t * Mr) / 2 ^ 56 < D" by (simp add: field_simps)
      then show ?thesis unfolding D_def .
    next
      case False
      then have kl: "l + d + 1 \<le> k" by simp
      have "R * 2 ^ d < 2 ^ 24 * 2 ^ l * 2 ^ d"
        unfolding R_def using b(2) by simp
      also have "\<dots> = 2 ^ 23 * 2 ^ (l + d + 1)" by (simp add: power_add)
      also have "\<dots> \<le> 2 ^ 23 * 2 ^ k"
        using kl by (intro mult_left_mono power_increasing) auto
      finally have "R * 2 ^ d < 2 ^ 23 * 2 ^ k" .
      then have "6 * v * (R * 2 ^ d) < 6 * v * (2 ^ 23 * 2 ^ k)" using v by simp
      also have "\<dots> = (6 * v * 2 ^ 23) * 2 ^ k" by simp
      also have "\<dots> \<le> (5 * u * 2 ^ d) * 2 ^ k" using P2 by (intro mult_right_mono) auto
      also have "\<dots> \<le> (5 * u * 2 ^ d) * M"
      proof -
        have "1 * 2 ^ k \<le> a * 2 ^ k" using a(1) by (intro mult_right_mono) auto
        then have "2 ^ k \<le> M" by (simp add: M_def)
        then show ?thesis using u by (intro mult_left_mono) auto
      qed
      finally have "(6 * v * R) * 2 ^ d < (5 * u * M) * 2 ^ d" by (simp add: algebra_simps)
      then have "6 * v * R < 5 * u * M" by simp
      then have "real_of_int (6 * v * R) < real_of_int (5 * u * M)" by (simp only: of_int_less_iff)
      then have "6 * (real_of_int v * Rr) < 5 * (real_of_int u * Mr)"
        by (simp add: Mr_def Rr_def)
      moreover have "real_of_int u * Mr = real_of_int v * (t * Mr)"
        using v by (simp add: t_def)
      ultimately have "real_of_int v * (6 * Rr) < real_of_int v * (5 * (t * Mr))" by simp
      then have "6 * Rr < 5 * (t * Mr)"
        using v by (simp only: mult_less_cancel_left_pos of_int_0_less_iff)
      moreover have "11 * (t * Mr) / 2 ^ 56 \<le> (t * Mr) / 6"
      proof -
        have g: "0 \<le> X \<Longrightarrow> 11 * X / 2 ^ 56 \<le> X / 6" for X :: real by simp
        show ?thesis using tM by (intro g) linarith
      qed
      ultimately show ?thesis by linarith
    qed
    have "v * R < u * M \<or> u * M < v * R" using False by linarith
    then show ?thesis
    proof
      assume less: "v * R < u * M"
      then have "Rr < t * Mr" using cmp2 by simp
      then have "Rr < T" using far A by linarith
      then show ?thesis using less by (simp add: Rr_def)
    next
      assume greater: "u * M < v * R"
      then have "t * Mr < Rr" using cmp1 by simp
      then have "T < Rr" using far A by linarith
      then show ?thesis using greater by (simp add: Rr_def)
    qed
  qed
have small: "11 * (t * Mr) / 2 ^ 56 \<le> (t * Mr) / 2"
  proof -
    have g: "0 \<le> X \<Longrightarrow> 11 * X / 2 ^ 56 \<le> X / 2" for X :: real by simp
    show ?thesis using tM by (intro g) linarith
  qed
  have "0 < T" using A small tM by linarith
  moreover have "T \<le> 2 * (t * Mr)" using A small tM by linarith
  ultimately show ?thesis using main unfolding t_def Mr_def by blast
qed

lemma scaled_compare:
  fixes M R u v :: int and d :: nat and cf :: real
  assumes M: "M = 0 \<or> (\<exists>a k. 1 \<le> a \<and> a < 2 ^ 24 \<and> k \<le> 104 \<and> \<bar>M\<bar> = a * 2 ^ k)"
    and R: "R = 0 \<or> (\<exists>a k. 1 \<le> a \<and> a < 2 ^ 24 \<and> k \<le> 104 \<and> \<bar>R\<bar> = a * 2 ^ k)"
    and u: "0 < u" and v: "0 < v" and uv: "u \<le> v"
    and cf1: "1 / 4 \<le> cf"
    and cf2: "cf \<le> of_int u / of_int v"
    and cf3: "of_int u / of_int v - cf \<le> 3 * (of_int u / of_int v) / 2 ^ 56"
    and P1: "3 * u * 2 ^ d \<le> 2 ^ 30"
    and P2: "6 * v * 2 ^ 23 \<le> 5 * u * 2 ^ d"
  defines "P \<equiv> mk_double (M < 0) (\<bar>of_int M\<bar> * cf)"
  shows "float_lt P (exact_of_int R) \<longleftrightarrow> u * M < v * R"
    and "float_lt (exact_of_int R) P \<longleftrightarrow> v * R < u * M"
proof -
  have both: "(float_lt P (exact_of_int R) \<longleftrightarrow> u * M < v * R)
            \<and> (float_lt (exact_of_int R) P \<longleftrightarrow> v * R < u * M)"
  proof (cases "M = 0")
    case True
    then have P: "P = Finite False 0" by (simp add: P_def mk_double_0)
    have "(0 < v * R) = (0 < R)" "(v * R < 0) = (R < 0)"
      using v by (simp_all add: zero_less_mult_iff mult_less_0_iff)
    then show ?thesis unfolding P using True by (simp add: exact_of_int_def)
  next
    case False
    with M obtain a k where a: "1 \<le> a" "a < 2 ^ 24" and k: "k \<le> 104"
      and absM: "\<bar>M\<bar> = a * 2 ^ k" by blast
    define T where "T = round_to 53 (- 1074) (of_int (a * 2 ^ k) * cf)"
    have one: "(1::int) \<le> 1" "(1::int) < 2 ^ 24" by simp_all
    from threshold_sign [OF a one u v cf1 cf2 cf3 P1 P2, of k 0]
    have Tpos: "0 < T" and Tle: "T \<le> 2 * (of_int u / of_int v * of_int (a * 2 ^ k))"
      unfolding T_def by blast+
    have Mreal: "\<bar>real_of_int M\<bar> = real_of_int (a * 2 ^ k)"
      using absM by (metis of_int_abs)
    have "real_of_int u / real_of_int v \<le> 1" using uv v by simp
    moreover have aM: "0 \<le> real_of_int (a * 2 ^ k)" using Mreal by (metis abs_ge_zero)
    ultimately have "real_of_int u / real_of_int v * real_of_int (a * 2 ^ k)
        \<le> 1 * real_of_int (a * 2 ^ k)"
      by (intro mult_right_mono)
    then have "T \<le> 2 * real_of_int (a * 2 ^ k)" using Tle by linarith
    moreover have "real_of_int (a * 2 ^ k) < 2 ^ 24 * 2 ^ 104"
    proof -
      have "real_of_int a < 2 ^ 24" using a(2) by (metis of_int_less_numeral_power_cancel_iff)
      moreover have "(2::real) ^ k \<le> 2 ^ 104" using k by (intro power_increasing) auto
      moreover have "0 < real_of_int a" using a(1) by simp
      ultimately have "real_of_int a * 2 ^ k < 2 ^ 24 * 2 ^ 104"
        by (intro mult_less_le_imp_less) auto
      then show ?thesis by simp
    qed
    moreover have "2 * ((2::real) ^ 24 * 2 ^ 104) < 2 ^ 1024" by simp
    ultimately have "T < 2 ^ 1024" by linarith
    then have P: "P = Finite (M < 0) T"
      unfolding P_def mk_double_def Mreal T_def [symmetric] by (simp add: Let_def)
    have uM: "(0 < u * M) = (0 < M)" "(u * M < 0) = (M < 0)"
      using u by (simp_all add: zero_less_mult_iff mult_less_0_iff)
    have vR: "(0 < v * R) = (0 < R)" "(v * R < 0) = (R < 0)"
      using v by (simp_all add: zero_less_mult_iff mult_less_0_iff)
    show ?thesis
    proof (cases "R = 0")
      case True
      show ?thesis unfolding P using True Tpos False uM
        by (simp add: exact_of_int_def)
    next
      case Rnz: False
      with R obtain b l where b: "1 \<le> b" "b < 2 ^ 24" and absR: "\<bar>R\<bar> = b * 2 ^ l" by blast
      from threshold_sign [OF a b u v cf1 cf2 cf3 P1 P2, of k l]
      have lt: "T < real_of_int \<bar>R\<bar> \<longleftrightarrow> u * \<bar>M\<bar> < v * \<bar>R\<bar>"
        and gt: "real_of_int \<bar>R\<bar> < T \<longleftrightarrow> v * \<bar>R\<bar> < u * \<bar>M\<bar>"
        unfolding T_def absM absR by blast+
      consider "0 < M" "0 < R" | "0 < M" "R < 0" | "M < 0" "0 < R" | "M < 0" "R < 0"
        using False Rnz by linarith
      then show ?thesis
      proof cases
        case 1
        then show ?thesis unfolding P using lt gt by (simp add: exact_of_int_def)
      next
        case 2
        then have "v * R < 0" "0 < u * M" using uM vR by simp_all
        then have "\<not> u * M < v * R" "v * R < u * M" by linarith+
        then show ?thesis unfolding P using 2 Tpos by (simp add: exact_of_int_def)
      next
        case 3
        then have "0 < v * R" "u * M < 0" using uM vR by simp_all
        then have "u * M < v * R" "\<not> v * R < u * M" by linarith+
        then show ?thesis unfolding P using 3 Tpos by (simp add: exact_of_int_def)
      next
        case 4
        then have "\<bar>M\<bar> = - M" "\<bar>R\<bar> = - R" by simp_all
        then have "T < - real_of_int R \<longleftrightarrow> v * R < u * M"
          and "- real_of_int R < T \<longleftrightarrow> u * M < v * R"
          using lt gt by simp_all
        moreover have "(real_of_int R < - T) = (T < - real_of_int R)"
          and "(- T < real_of_int R) = (- real_of_int R < T)" by linarith+
        ultimately have "(- T < real_of_int R) = (u * M < v * R)"
          and "(real_of_int R < - T) = (v * R < u * M)" by simp_all
        then show ?thesis unfolding P using 4 by (simp add: exact_of_int_def)
      qed
    qed
  qed
  show "float_lt P (exact_of_int R) \<longleftrightarrow> u * M < v * R"
    and "float_lt (exact_of_int R) P \<longleftrightarrow> v * R < u * M"
    using both by blast+
qed

lemma shift_up_exact:
  assumes "int_of_float (f32_value n) = Some M" and "int_of_float (f32_value n') = Some R"
  shows "float_lt (fmul (exact_of_int M) (float_lit (85 / 100))) (exact_of_int R)
         \<longleftrightarrow> 85 * M < 100 * R"
proof -
  have "fmul (exact_of_int M) (float_lit (85 / 100))
      = mk_double (M < 0) (\<bar>of_int M\<bar> * (7656119366529843 / 9007199254740992))"
    unfolding float_lit_085 exact_of_int_def by simp
  moreover have "float_lt (mk_double (M < 0) (\<bar>of_int M\<bar> * (7656119366529843 / 9007199254740992)))
      (exact_of_int R) \<longleftrightarrow> 17 * M < 20 * R"
    by (rule scaled_compare(1) [where d = 24, OF f32_int_shape [OF assms(1)] f32_int_shape [OF assms(2)]])
       simp_all
  ultimately show ?thesis by simp
qed

lemma shift_down_exact:
  assumes "int_of_float (f32_value n) = Some M" and "int_of_float (f32_value n') = Some R"
  shows "float_lt (exact_of_int R) (fmul (exact_of_int M) (float_lit (3 / 10)))
         \<longleftrightarrow> 10 * R < 3 * M"
proof -
  have "fmul (exact_of_int M) (float_lit (3 / 10))
      = mk_double (M < 0) (\<bar>of_int M\<bar> * (5404319552844595 / 18014398509481984))"
    unfolding float_lit_03 exact_of_int_def by simp
  moreover have "float_lt (exact_of_int R)
      (mk_double (M < 0) (\<bar>of_int M\<bar> * (5404319552844595 / 18014398509481984)))
      \<longleftrightarrow> 10 * R < 3 * M"
    by (rule scaled_compare(2) [where d = 25, OF f32_int_shape [OF assms(1)] f32_int_shape [OF assms(2)]])
       simp_all
  ultimately show ?thesis by simp
qed

lemma handshake_not_update:
  "dict_get (parse_handshaker payload) ''packet_type'' \<noteq> Some (PStr (str ''update''))"
  by (auto simp add: parse_handshaker_def dict_get_def str_def unpack_II_def Let_def
      split: option.splits prod.splits if_splits)

lemma decoded_update:
  assumes "parse gtotal pc data = (Some result, pc')"
    and "dict_get result ''packet_type'' = Some (PStr (str ''update''))"
  shows "\<exists>payload rpm max_rpm.
           328 \<le> length payload
         \<and> int_of_float (f32_at payload 12) = Some rpm
         \<and> int_of_float (f32_at payload 16) = Some max_rpm
         \<and> result = dict_update (update_layout payload rpm max_rpm)
                      (calculate_derived_values gtotal (update_layout payload rpm max_rpm))"
proof -
  have long: "4 \<le> length data"
    using assms(1) by (cases "length data < 4") (simp_all add: parse_def)
  define t where "t = le_nat (take 4 data)"
  define payload where "payload = drop 4 data"
  have data: "data = le_bytes 4 t @ payload" and t: "t < 2 ^ 32"
    using datagram_split [OF long] by (simp_all add: t_def payload_def)
  have p: "parse gtotal pc (le_bytes 4 t @ payload) = (Some result, pc')"
    using assms(1) data by simp
  have "t = 1"
  proof (rule ccontr)
    assume "t \<noteq> 1"
    then consider "t = 0" | "t = 2" | "t \<noteq> 0" "t \<noteq> 1" "t \<noteq> 2" by blast
    then show False
    proof cases
      case 1
      then have "result = parse_handshaker payload" using p t by (simp add: parse_tagged)
      then show False using assms(2) handshake_not_update by simp
    next
      case 2
      then have "result = parse_spot payload" using p t by (simp add: parse_tagged)
      then show False using assms(2) by (simp add: parse_spot_def dict_get_def str_def)
    next
      case 3
      then show False using p t by (simp add: parse_tagged)
    qed
  qed
  then have u: "parse_update gtotal pc payload = (result, pc')"
    using p t by (simp add: parse_tagged split: prod.splits)
  have nonempty: "result \<noteq> []" using assms(2) by (auto simp add: dict_get_def)
  have size: "328 \<le> length payload"
    using u nonempty by (cases "length payload < 328") (simp_all add: parse_update_def)
  then have f: "parse_update_fields gtotal payload = Some result"
    using u nonempty by (simp add: parse_update_def split: option.splits)
  from size have "188 \<le> length payload" by simp
  from f [unfolded parse_update_fields_eq [OF this]] size show ?thesis
    by (auto split: option.splits)
qed

text \<open>
  C1 as the code has it. In every decoded Update, \<open>rpm\<close> and \<open>max_rpm\<close> are
  integers and the recommendation is SHIFT UP exactly when \<open>rpm\<close> is greater than
  0.85 times \<open>max_rpm\<close>, otherwise SHIFT DOWN exactly when \<open>rpm\<close> is less than 0.3
  times \<open>max_rpm\<close>, and OPTIMAL otherwise. Both comparisons are strict, and they are
  those of exact arithmetic (\<open>85 * max_rpm < 100 * rpm\<close> and
  \<open>10 * rpm < 3 * max_rpm\<close>), although the source compares with the rounded
  binary64 products \<open>max_rpm * 0.85\<close> and \<open>max_rpm * 0.3\<close>. A \<open>max_rpm\<close> of 0 is no
  special case: the recommendation is then SHIFT UP for a positive \<open>rpm\<close>, SHIFT
  DOWN for a negative one and OPTIMAL for 0.
\<close>

theorem shift_recommendation_rule:
  assumes "parse gtotal pc data = (Some result, pc')"
    and "dict_get result ''packet_type'' = Some (PStr (str ''update''))"
  shows "\<exists>rpm max_rpm.
           dict_get result ''rpm'' = Some (PInt rpm)
         \<and> dict_get result ''max_rpm'' = Some (PInt max_rpm)
         \<and> dict_get result ''gear_recommendation''
             = Some (PStr
                 (if 85 * max_rpm < 100 * rpm then str ''SHIFT UP''
                  else if 10 * rpm < 3 * max_rpm then str ''SHIFT DOWN''
                  else str ''OPTIMAL''))
         \<and> (max_rpm = 0 \<longrightarrow>
               dict_get result ''gear_recommendation''
                 = Some (PStr (if 0 < rpm then str ''SHIFT UP''
                               else if rpm < 0 then str ''SHIFT DOWN''
                               else str ''OPTIMAL'')))"
proof -
  from decoded_update [OF assms] obtain payload rpm max_rpm
    where rpm_field: "int_of_float (f32_at payload 12) = Some rpm"
      and max_rpm: "int_of_float (f32_at payload 16) = Some max_rpm"
      and result: "result = dict_update (update_layout payload rpm max_rpm)
                      (calculate_derived_values gtotal (update_layout payload rpm max_rpm))"
    by blast
  have exact: "float_of_int max_rpm = Some (exact_of_int max_rpm)"
    using max_rpm unfolding f32_at_def by (rule int_of_f32_exact)
  have rpm: "dict_get result ''rpm'' = Some (PInt rpm)"
    and maxr: "dict_get result ''max_rpm'' = Some (PInt max_rpm)"
    unfolding result by (simp_all add: derived_misses) (simp_all add: dict_get_def update_layout_def)
  have up: "float_lt (fmul (exact_of_int max_rpm) (float_lit (85 / 100))) (exact_of_int rpm)
            \<longleftrightarrow> 85 * max_rpm < 100 * rpm"
    using max_rpm rpm_field unfolding f32_at_def by (rule shift_up_exact)
  have down: "float_lt (exact_of_int rpm) (fmul (exact_of_int max_rpm) (float_lit (3 / 10)))
            \<longleftrightarrow> 10 * rpm < 3 * max_rpm"
    using max_rpm rpm_field unfolding f32_at_def by (rule shift_down_exact)
  have "dict_get result ''gear_recommendation''
             = Some (PStr
                 (if float_lt (fmul (exact_of_int max_rpm) (float_lit (85 / 100))) (exact_of_int rpm)
                    then str ''SHIFT UP''
                  else if float_lt (exact_of_int rpm) (fmul (exact_of_int max_rpm) (float_lit (3 / 10)))
                    then str ''SHIFT DOWN''
                  else str ''OPTIMAL''))"
    unfolding result using exact by (rule result_gear)
  then have gear: "dict_get result ''gear_recommendation''
             = Some (PStr
                 (if 85 * max_rpm < 100 * rpm then str ''SHIFT UP''
                  else if 10 * rpm < 3 * max_rpm then str ''SHIFT DOWN''
                  else str ''OPTIMAL''))"
    by (simp only: up down)
  have zero: "dict_get result ''gear_recommendation''
                 = Some (PStr (if 0 < rpm then str ''SHIFT UP''
                               else if rpm < 0 then str ''SHIFT DOWN''
                               else str ''OPTIMAL''))" if "max_rpm = 0"
    unfolding gear using that by simp
  show ?thesis using rpm maxr gear zero by blast
qed

lemma sample_result:
  "parse gforce_raises 0 (le_bytes 4 (udp_type_value UPDATE) @ sample_payload)
     = (Some (dict_update (update_layout sample_payload 7200 8000)
                (calculate_derived_values gforce_raises (update_layout sample_payload 7200 8000))), 1)"
  using parse_update_ok [of sample_payload 7200 8000 gforce_raises 0]
  by (simp add: sample_length sample_fields)

lemma idle_result:
  "parse gforce_raises 0 (le_bytes 4 (udp_type_value UPDATE) @ idle_payload)
     = (Some (dict_update (update_layout idle_payload 1 0)
                (calculate_derived_values gforce_raises (update_layout idle_payload 1 0))), 1)"
  using parse_update_ok [of idle_payload 1 0 gforce_raises 0]
  by (simp add: f32_at_def idle_payload_def f32_value_def)

lemma layout_keys:
  "dict_get (dict_update (update_layout p rpm max_rpm)
               (calculate_derived_values gtotal (update_layout p rpm max_rpm))) ''rpm''
     = Some (PInt rpm)"
  "dict_get (dict_update (update_layout p rpm max_rpm)
               (calculate_derived_values gtotal (update_layout p rpm max_rpm))) ''max_rpm''
     = Some (PInt max_rpm)"
  "dict_get (dict_update (update_layout p rpm max_rpm)
               (calculate_derived_values gtotal (update_layout p rpm max_rpm))) ''packet_type''
     = Some (PStr (str ''update''))"
  by (simp_all add: derived_misses) (simp_all add: dict_get_def update_layout_def)

theorem shift_recommendation_rule_witness:
  "(\<exists>result.
      parse gforce_raises 0 (le_bytes 4 (udp_type_value UPDATE) @ sample_payload) = (Some result, 1)
    \<and> dict_get result ''packet_type'' = Some (PStr (str ''update''))
    \<and> dict_get result ''rpm'' = Some (PInt 7200)
    \<and> dict_get result ''max_rpm'' = Some (PInt 8000)
    \<and> dict_get result ''gear_recommendation'' = Some (PStr (str ''SHIFT UP'')))
   \<and> (\<exists>result.
      parse gforce_raises 0 (le_bytes 4 (udp_type_value UPDATE) @ idle_payload) = (Some result, 1)
    \<and> dict_get result ''packet_type'' = Some (PStr (str ''update''))
    \<and> dict_get result ''rpm'' = Some (PInt 1)
    \<and> dict_get result ''max_rpm'' = Some (PInt 0)
    \<and> dict_get result ''gear_recommendation'' = Some (PStr (str ''SHIFT UP'')))"
proof (rule conjI)
  define result where "result = dict_update (update_layout sample_payload 7200 8000)
      (calculate_derived_values gforce_raises (update_layout sample_payload 7200 8000))"
  have decoded: "parse gforce_raises 0 (le_bytes 4 (udp_type_value UPDATE) @ sample_payload)
      = (Some result, 1)"
    unfolding result_def by (rule sample_result)
  have kind: "dict_get result ''packet_type'' = Some (PStr (str ''update''))"
    and rpm: "dict_get result ''rpm'' = Some (PInt 7200)"
    and max_rpm: "dict_get result ''max_rpm'' = Some (PInt 8000)"
    unfolding result_def by (rule layout_keys)+
  from shift_recommendation_rule [OF decoded kind] obtain r m
    where "dict_get result ''rpm'' = Some (PInt r)"
      and "dict_get result ''max_rpm'' = Some (PInt m)"
      and gear: "dict_get result ''gear_recommendation''
             = Some (PStr
                 (if 85 * m < 100 * r then str ''SHIFT UP''
                  else if 10 * r < 3 * m then str ''SHIFT DOWN''
                  else str ''OPTIMAL''))"
    by blast
  with rpm max_rpm have "r = 7200" and "m = 8000" by simp_all
  with gear have "dict_get result ''gear_recommendation'' = Some (PStr (str ''SHIFT UP''))"
    by simp
  with decoded kind rpm max_rpm
  show "\<exists>result.
      parse gforce_raises 0 (le_bytes 4 (udp_type_value UPDATE) @ sample_payload) = (Some result, 1)
    \<and> dict_get result ''packet_type'' = Some (PStr (str ''update''))
    \<and> dict_get result ''rpm'' = Some (PInt 7200)
    \<and> dict_get result ''max_rpm'' = Some (PInt 8000)
    \<and> dict_get result ''gear_recommendation'' = Some (PStr (str ''SHIFT UP''))"
    by blast
next
  define result where "result = dict_update (update_layout idle_payload 1 0)
      (calculate_derived_values gforce_raises (update_layout idle_payload 1 0))"
  have decoded: "parse gforce_raises 0 (le_bytes 4 (udp_type_value UPDATE) @ idle_payload)
      = (Some result, 1)"
    unfolding result_def by (rule idle_result)
  have kind: "dict_get result ''packet_type'' = Some (PStr (str ''update''))"
    and rpm: "dict_get result ''rpm'' = Some (PInt 1)"
    and max_rpm: "dict_get result ''max_rpm'' = Some (PInt 0)"
    unfolding result_def by (rule layout_keys)+
  from shift_recommendation_rule [OF decoded kind] obtain r m
    where "dict_get result ''rpm'' = Some (PInt r)"
      and "dict_get result ''max_rpm'' = Some (PInt m)"
      and gear: "m = 0 \<longrightarrow>
               dict_get result ''gear_recommendation''
                 = Some (PStr (if 0 < r then str ''SHIFT UP''
                               else if r < 0 then str ''SHIFT DOWN''
                               else str ''OPTIMAL''))"
    by blast
  with rpm max_rpm have "r = 1" and "m = 0" by simp_all
  with gear have "dict_get result ''gear_recommendation'' = Some (PStr (str ''SHIFT UP''))"
    by simp
  with decoded kind rpm max_rpm
  show "\<exists>result.
      parse gforce_raises 0 (le_bytes 4 (udp_type_value UPDATE) @ idle_payload) = (Some result, 1)
    \<and> dict_get result ''packet_type'' = Some (PStr (str ''update''))
    \<and> dict_get result ''rpm'' = Some (PInt 1)
    \<and> dict_get result ''max_rpm'' = Some (PInt 0)
    \<and> dict_get result ''gear_recommendation'' = Some (PStr (str ''SHIFT UP''))"
    by blast
qed

text \<open>
  C1 as the specification states it fails on an Update whose \<open>max_rpm\<close> is 0 and
  whose \<open>rpm\<close> is 1: the recommendation is SHIFT UP, not OPTIMAL.
\<close>

theorem shift_recommendation_counterexample:
  "dict_get (the (fst (parse gforce_raises 0
       ([1, 0, 0, 0] @ replicate 12 0 @ [0, 0, 0x80, 0x3F] @ replicate 312 0)))) ''max_rpm''
     = Some (PInt 0)
   \<and> dict_get (the (fst (parse gforce_raises 0
       ([1, 0, 0, 0] @ replicate 12 0 @ [0, 0, 0x80, 0x3F] @ replicate 312 0)))) ''rpm''
     = Some (PInt 1)
   \<and> dict_get (the (fst (parse gforce_raises 0
       ([1, 0, 0, 0] @ replicate 12 0 @ [0, 0, 0x80, 0x3F] @ replicate 312 0)))) ''gear_recommendation''
     = Some (PStr (str ''SHIFT UP''))
   \<and> str ''SHIFT UP'' \<noteq> str ''OPTIMAL''"
proof -
  have "float_of_int 0 = Some (exact_of_int 0)"
    by (rule float_of_int_exact) simp
  then have "dict_get (dict_update (update_layout idle_payload 1 0)
                (calculate_derived_values gforce_raises (update_layout idle_payload 1 0)))
               ''gear_recommendation''
      = Some (PStr
          (if float_lt (fmul (exact_of_int 0) (float_lit (85 / 100))) (exact_of_int 1)
             then str ''SHIFT UP''
           else if float_lt (exact_of_int 1) (fmul (exact_of_int 0) (float_lit (3 / 10)))
             then str ''SHIFT DOWN''
           else str ''OPTIMAL''))"
    by (rule result_gear)
  moreover have "exact_of_int 0 = Finite False 0" "exact_of_int 1 = Finite False 1"
    by (simp_all add: exact_of_int_def)
  ultimately have gear: "dict_get (dict_update (update_layout idle_payload 1 0)
                (calculate_derived_values gforce_raises (update_layout idle_payload 1 0)))
               ''gear_recommendation'' = Some (PStr (str ''SHIFT UP''))"
    by (simp only: zero_thresholds) simp
  have "[1, 0, 0, 0] @ replicate 12 0 @ [0, 0, 0x80, 0x3F] @ replicate 312 0
      = le_bytes 4 (udp_type_value UPDATE) @ idle_payload"
    by (simp add: le_bytes_4 idle_payload_def)
  then show ?thesis
    by (simp only: idle_result fst_conv option.sel layout_keys gear) (simp add: str_def)
qed



subsection \<open>The names of a handshake\<close>

lemma unpack_II_8:
  assumes "8 \<le> length payload"
  shows "unpack_II (py_slice payload 0 8)
           = Some (le_nat (py_slice payload 0 4), le_nat (py_slice payload 4 8))"
proof -
  have "take 4 (take 8 payload) = take 4 payload" by simp
  moreover have "drop 4 (take 8 payload) = take 4 (drop 4 payload)"
    by (simp add: drop_take)
  ultimately show ?thesis using assms by (simp add: unpack_II_def py_slice_def)
qed

text \<open>
  What the two handlers do with an error: a byte that cannot start a sequence is
  skipped by \<open>Ignore\<close> and becomes U+FFFD under \<open>Replace\<close>; ASCII text is read as
  it is by both.
\<close>

lemma invalid_start_dropped:
  assumes "(0x80 \<le> b \<and> b < 0xC2) \<or> 0xF5 \<le> b"
  shows "utf8_decode Ignore (b # bs) = utf8_decode Ignore bs"
    and "utf8_decode Replace (b # bs) = 0xFFFD # utf8_decode Replace bs"
proof -
  have "utf8_step (b # bs) = (None, 1)"
    using assms by (auto simp add: word_less_nat_alt word_le_nat_alt)
  then show "utf8_decode Ignore (b # bs) = utf8_decode Ignore bs"
    and "utf8_decode Replace (b # bs) = 0xFFFD # utf8_decode Replace bs"
    by (simp_all del: utf8_step.simps)
qed

lemma ascii_decode:
  "(\<And>b. b \<in> set bs \<Longrightarrow> b < 0x80) \<Longrightarrow> utf8_decode h bs = map unat bs"
  by (induction bs) simp_all

text \<open>\<open>rstrip_nul\<close> removes NULs from the end, and nothing else.\<close>

lemma rstrip_nul_last: "rstrip_nul s = [] \<or> 0 < last (rstrip_nul s)"
proof (cases "dropWhile (\<lambda>c. c = 0) (rev s)")
  case Nil
  then show ?thesis by (simp add: rstrip_nul_def)
next
  case (Cons c cs)
  then have "hd (dropWhile (\<lambda>c. c = 0) (rev s)) \<noteq> 0"
    using hd_dropWhile [of "\<lambda>c. c = 0" "rev s"] by auto
  then show ?thesis using Cons by (simp add: rstrip_nul_def)
qed

lemma rstrip_nul_padding:
  "s = rstrip_nul s @ replicate (length (takeWhile (\<lambda>c. c = 0) (rev s))) 0"
proof -
  have "takeWhile (\<lambda>c. c = 0) (rev s)
      = replicate (length (takeWhile (\<lambda>c. c = 0) (rev s))) (0::nat)"
    by (intro replicate_length_same [symmetric]) (auto dest: set_takeWhileD)
  then have "rev s = replicate (length (takeWhile (\<lambda>c. c = 0) (rev s))) 0
      @ dropWhile (\<lambda>c. c = 0) (rev s)"
    using takeWhile_dropWhile_id [of "\<lambda>c. c = 0" "rev s"] by simp
  then have "rev (rev s) = rev (replicate (length (takeWhile (\<lambda>c. c = 0) (rev s))) 0
      @ dropWhile (\<lambda>c. c = 0) (rev s))"
    by (rule arg_cong)
  then show ?thesis by (simp add: rstrip_nul_def)
qed

text \<open>
  C8 as the code has it. For a Handshake payload of at least 8 bytes, the two names
  are the bytes after the two lengths, decoded with the handler \<open>Ignore\<close>, which
  leaves out every invalid sequence and puts nothing in its place
  (\<open>invalid_start_dropped\<close>), and stripped of the NULs at their end
  (\<open>rstrip_nul_last\<close>, \<open>rstrip_nul_padding\<close>); the decode never fails.
\<close>

theorem handshake_names_ignore_invalid:
  assumes "8 \<le> length payload"
  shows "parse gtotal pc (le_bytes 4 (udp_type_value HANDSHAKER) @ payload)
       = (Some [(''car_name'',
                   PStr (rstrip_nul (utf8_decode Ignore
                     (py_slice payload 8 (8 + le_nat (py_slice payload 0 4)))))),
                (''driver_name'',
                   PStr (rstrip_nul (utf8_decode Ignore
                     (py_slice payload (8 + le_nat (py_slice payload 0 4))
                        (8 + le_nat (py_slice payload 0 4) + le_nat (py_slice payload 4 8)))))),
                (''packet_type'', PStr (str ''handshaker''))], pc)"
  using assms by (simp add: parse_tagged parse_handshaker_def unpack_II_8 Let_def)

theorem handshake_names_ignore_invalid_witness:
  "8 \<le> length [1, 0, 0, 0, 4, 0, 0, 0, 0xFF, 0x41, 0xC3, 0x28, 0 :: byte]
   \<and> parse gforce_raises 0
        (le_bytes 4 (udp_type_value HANDSHAKER)
           @ [1, 0, 0, 0, 4, 0, 0, 0, 0xFF, 0x41, 0xC3, 0x28, 0])
       = (Some [(''car_name'', PStr []), (''driver_name'', PStr [0x41, 0x28]),
                (''packet_type'', PStr (str ''handshaker''))], 0)"
proof -
  have size: "8 \<le> length [1, 0, 0, 0, 4, 0, 0, 0, 0xFF, 0x41, 0xC3, 0x28, 0 :: byte]"
    by simp
  show ?thesis
    using size handshake_names_ignore_invalid [OF size, of gforce_raises 0]
    by (simp add: py_slice_def rstrip_nul_def is_cont_def)
qed

text \<open>
  C8 as the specification states it fails on a Handshake whose car name is the single
  byte FF: the decoded name is empty, where decoding with replacement gives U+FFFD.
\<close>

theorem handshake_names_counterexample:
  "dict_get (the (fst (parse gforce_raises 0 [0, 0, 0, 0, 1, 0, 0, 0, 0, 0, 0, 0, 0xFF]))) ''car_name''
     = Some (PStr [])
   \<and> rstrip_nul (utf8_decode Replace [0xFF]) = [0xFFFD]"
  using parse_tagged [of 0 gforce_raises 0 "[1, 0, 0, 0, 0, 0, 0, 0, 0xFF]"]
  by (simp add: le_bytes_4 parse_handshaker_def unpack_II_def py_slice_def rstrip_nul_def dict_get_def)

end
